theory Spec2Isabelle
  imports Main "HOL-Library.Multiset"
begin

section \<open>Common types\<close>

text \<open>
  \<^verbatim>\<open>oid_t\<close> and \<^verbatim>\<open>id_t\<close> are unsigned integer typedefs of
  \<^verbatim>\<open>common/types.h\<close>. Every counter of this development is bounded by a
  tuple count that the executor holds in an \<^verbatim>\<open>int\<close>, so no counter wraps and
  the identifiers are natural numbers.
\<close>

type_synonym oid_t = nat

text \<open>
  An \<^verbatim>\<open>assert\<close> that fails aborts the program: no value is returned to the
  caller. The model keeps the assertions of the source enabled and makes the abort a
  value of its own, \<open>AssertionFailure\<close>. The other three errors are those of a table
  insert: the two constraint violations of the spec, and "table full".
\<close>

datatype error = AssertionFailure | NullViolation | UniqueKeyViolation | TableFull

text \<open>
  Modelled from the spec: \<^verbatim>\<open>catalog::Schema\<close> and \<^verbatim>\<open>catalog::ColumnInfo\<close>
  are not among the sources. A schema is an "ordered sequence of column descriptors
  (type, byte width, nullability, inlined-vs-pointer storage)"; the fields are the five
  constructor arguments that \<^verbatim>\<open>ExecutorTestsUtil::GetColumnInfo\<close> passes.
\<close>

datatype value_type = VALUE_TYPE_INTEGER | VALUE_TYPE_DOUBLE | VALUE_TYPE_VARCHAR

record column_info =
  col_type :: value_type
  col_length :: nat
  col_name :: string
  allow_null :: bool
  is_inlined :: bool

type_synonym schema = "column_info list"

definition GetColumnCount :: "schema \<Rightarrow> nat" where
  "GetColumnCount s = length s"

section \<open>Physical tiles\<close>

text \<open>
  Modelled from the spec: \<^verbatim>\<open>storage::Tile\<close> is not among the sources. A
  PhysicalTile "owns a schema fragment, a tuple capacity, and column-major backing
  storage; supports GetValue(slot, col) / SetValue(value, slot, col); slot indices are
  dense [0, capacity)". A cell that was never written holds \<open>None\<close>; the value type
  \<open>'v\<close> is the external \<^verbatim>\<open>Value\<close> layer.
\<close>

record 'v tile =
  tile_schema :: schema
  num_tuple_slots :: nat
  cells :: "nat \<times> nat \<Rightarrow> 'v option"

definition GetTempTile :: "schema \<Rightarrow> nat \<Rightarrow> 'v tile" where
  "GetTempTile s n = \<lparr>tile_schema = s, num_tuple_slots = n, cells = (\<lambda>_. None)\<rparr>"

definition Tile_GetValue :: "'v tile \<Rightarrow> oid_t \<Rightarrow> oid_t \<Rightarrow> 'v option" where
  "Tile_GetValue t slot col = cells t (slot, col)"

definition SetValue :: "'v option \<Rightarrow> oid_t \<Rightarrow> oid_t \<Rightarrow> 'v tile \<Rightarrow> 'v tile" where
  "SetValue v slot col t = t\<lparr>cells := (cells t)((slot, col) := v)\<rparr>"

text \<open>A \<^verbatim>\<open>storage::Tile *\<close> is an address in a store of tiles; allocation
  appends, so the address of a new tile is the length of the store before.\<close>

type_synonym tile_ptr = nat

type_synonym 'v heap = "'v tile list"

section \<open>Logical tiles\<close>

text \<open>
  Modelled from the spec: \<^verbatim>\<open>LogicalTile\<close> is not among the sources, the members
  of its schema are. The first three fields are the vectors of
  \<^verbatim>\<open>logical_schema.h\<close>; the other two follow the spec: a LogicalTile "holds the
  selected (visible) row-id sequence; iteration is restartable and yields only selected
  slots", and it owns its base tile only under the "own_base_tile" flag.
\<close>

record logical_tile =
  base_tiles :: "tile_ptr list"
  origin_columns :: "oid_t list"
  valid_bits :: "bool list"
  selected_rows :: "oid_t list"
  own_base_tile :: bool

text \<open>
  Modelled from the spec: \<^verbatim>\<open>logical_schema.h\<close> declares the four accessors, and
  their bodies are not among the sources. "GetBaseTile(col) -> PhysicalTile*,
  GetOriginColumnId(col) -> column index in that tile, IsValid(col), NumCols() (includes
  invalidated columns)": each reads its vector at the column. The theorems use them on
  columns below \<open>NumCols\<close> only.
\<close>

definition GetBaseTile :: "logical_tile \<Rightarrow> oid_t \<Rightarrow> tile_ptr" where
  "GetBaseTile lt column_id = base_tiles lt ! column_id"

definition GetOriginColumnId :: "logical_tile \<Rightarrow> oid_t \<Rightarrow> oid_t" where
  "GetOriginColumnId lt column_id = origin_columns lt ! column_id"

definition IsValid :: "logical_tile \<Rightarrow> oid_t \<Rightarrow> bool" where
  "IsValid lt column_id = valid_bits lt ! column_id"

definition NumCols :: "logical_tile \<Rightarrow> nat" where
  "NumCols lt = length (base_tiles lt)"

text \<open>Invariant I1 of the spec: every logical column maps to one (tile, origin column)
  pair that exists in the store.\<close>

definition wf_logical_tile :: "'v heap \<Rightarrow> logical_tile \<Rightarrow> bool" where
  "wf_logical_tile h lt \<longleftrightarrow>
     length (origin_columns lt) = length (base_tiles lt) \<and>
     length (valid_bits lt) = length (base_tiles lt) \<and>
     list_all (\<lambda>p. p < length h) (base_tiles lt)"

text \<open>
  Modelled from the spec: the methods of \<^verbatim>\<open>LogicalTile\<close> are not among the
  sources. The tuple count is the number of selected rows, which are the rows that
  iteration yields (the destination is "sized to the source LogicalTile's selected tuple
  count"); a value is read through the column's base tile and origin column; the
  physical schema, the "inferred schema" of the source, lists the physical column behind
  every logical column, invalidated or not.
\<close>

definition GetTupleCount :: "logical_tile \<Rightarrow> nat" where
  "GetTupleCount lt = length (selected_rows lt)"

definition GetValue :: "'v heap \<Rightarrow> logical_tile \<Rightarrow> oid_t \<Rightarrow> oid_t \<Rightarrow> 'v option" where
  "GetValue h lt tuple_id column_id =
     Tile_GetValue (h ! GetBaseTile lt column_id) tuple_id (GetOriginColumnId lt column_id)"

definition GetPhysicalSchema :: "'v heap \<Rightarrow> logical_tile \<Rightarrow> schema" where
  "GetPhysicalSchema h lt =
     map (\<lambda>col. tile_schema (h ! GetBaseTile lt col) ! GetOriginColumnId lt col)
       [0 ..< NumCols lt]"

text \<open>
  Modelled from the spec: \<^verbatim>\<open>LogicalTileFactory::WrapTiles\<close> is not among the
  sources. It wraps physical tiles "as a new, tile-owning LogicalTile (identity mapping
  over its own columns)"; the rows are the slots of the first tile.
\<close>

definition WrapTiles :: "'v heap \<Rightarrow> tile_ptr list \<Rightarrow> bool \<Rightarrow> logical_tile" where
  "WrapTiles h ptrs own =
     \<lparr>base_tiles = concat (map (\<lambda>p. replicate (GetColumnCount (tile_schema (h ! p))) p) ptrs),
      origin_columns = concat (map (\<lambda>p. [0 ..< GetColumnCount (tile_schema (h ! p))]) ptrs),
      valid_bits = concat (map (\<lambda>p. replicate (GetColumnCount (tile_schema (h ! p))) True) ptrs),
      selected_rows = (case ptrs of [] \<Rightarrow> [] | p # _ \<Rightarrow> [0 ..< num_tuple_slots (h ! p)]),
      own_base_tile = own\<rparr>"

section \<open>The materialization executor\<close>

text \<open>
  A \<^verbatim>\<open>std::unordered_map\<close> is an association list with distinct keys. The order
  of the list stands for the iteration order of the hash table, which C++ leaves
  unspecified; a new key goes to the end of the list. The section on the order of the
  buckets shows when the order has no effect.
\<close>

type_synonym col_map = "(oid_t \<times> oid_t) list"

type_synonym tile_to_cols = "(tile_ptr \<times> oid_t list) list"

text \<open>
  Modelled from the spec: \<^verbatim>\<open>planner::MaterializationNode\<close> is not among the
  sources. The directive is "an optional (old-column -> new-column) mapping plus an
  optional output schema plus a physicalize flag"; the fields are the three accessors
  that \<^verbatim>\<open>Physify\<close> and \<^verbatim>\<open>DExecute\<close> call, and a plan node that is absent
  is \<open>None\<close>.
\<close>

record materialization_node =
  GetSchema :: "schema option"
  old_to_new_cols :: col_map
  GetPhysifyFlag :: bool

text \<open>
  Modelled from the spec: \<^verbatim>\<open>AbstractExecutor\<close> is not among the sources. A child
  is the script of its coming pulls, as the tests' \<^verbatim>\<open>MockExecutor\<close> is. One pull
  is \<^verbatim>\<open>Execute()\<close> followed, when it returned true, by \<^verbatim>\<open>GetOutput()\<close>:
  \<open>Some t\<close> is a pull that returns true and hands over the tile \<open>t\<close>, \<open>None\<close> (or
  a script that has run out) a pull that returns false.
\<close>

type_synonym child_executor = "logical_tile option list"

record executor =
  children :: "child_executor list"
  node :: "materialization_node option"
  exec_output :: "logical_tile option"

fun child_Execute :: "child_executor \<Rightarrow> logical_tile option \<times> child_executor" where
  "child_Execute [] = (None, [])"
| "child_Execute (pull # rest) = (pull, rest)"

definition DInit :: "executor \<Rightarrow> error + bool" where
  "DInit e = (if length (children e) = 1 then Inr True else Inl AssertionFailure)"

text \<open>\<^verbatim>\<open>cols_in_physical_tile[base_tile].push_back(col)\<close>: the bucket of the tile,
  made empty first when the tile has none.\<close>

fun push_back_col :: "tile_ptr \<Rightarrow> oid_t \<Rightarrow> tile_to_cols \<Rightarrow> tile_to_cols" where
  "push_back_col base_tile col [] = [(base_tile, [col])]"
| "push_back_col base_tile col ((p, cols) # m) =
     (if p = base_tile then (p, cols @ [col]) # m
      else (p, cols) # push_back_col base_tile col m)"

fun GenerateTileToColMap :: "col_map \<Rightarrow> logical_tile \<Rightarrow> tile_to_cols \<Rightarrow> tile_to_cols" where
  "GenerateTileToColMap [] source_tile cols_in_physical_tile = cols_in_physical_tile"
| "GenerateTileToColMap (kv # rest) source_tile cols_in_physical_tile =
     GenerateTileToColMap rest source_tile
       (push_back_col (GetBaseTile source_tile (fst kv)) (fst kv) cols_in_physical_tile)"

text \<open>The innermost loop of \<^verbatim>\<open>MaterializeByTiles\<close>: one column, row by row, with
  the counter \<^verbatim>\<open>new_tuple_id\<close>.\<close>

fun copy_column ::
  "'v heap \<Rightarrow> logical_tile \<Rightarrow> oid_t \<Rightarrow> oid_t \<Rightarrow> oid_t list \<Rightarrow> oid_t \<Rightarrow> 'v tile \<Rightarrow> 'v tile" where
  "copy_column h source_tile old_col_id new_col_id [] new_tuple_id dest_tile = dest_tile"
| "copy_column h source_tile old_col_id new_col_id (old_tuple_id # rows) new_tuple_id dest_tile =
     copy_column h source_tile old_col_id new_col_id rows (new_tuple_id + 1)
       (SetValue (GetValue h source_tile old_tuple_id old_col_id) new_tuple_id new_col_id
          dest_tile)"

text \<open>The loop over the columns of one bucket; \<^verbatim>\<open>assert(it != old_to_new_cols.end())\<close>
  is the failing branch.\<close>

fun materialize_columns ::
  "'v heap \<Rightarrow> logical_tile \<Rightarrow> col_map \<Rightarrow> oid_t list \<Rightarrow> 'v tile \<Rightarrow> error + 'v tile" where
  "materialize_columns h source_tile o2n [] dest_tile = Inr dest_tile"
| "materialize_columns h source_tile o2n (old_col_id # old_column_ids) dest_tile =
     (case map_of o2n old_col_id of
        None \<Rightarrow> Inl AssertionFailure
      | Some new_col_id \<Rightarrow>
          materialize_columns h source_tile o2n old_column_ids
            (copy_column h source_tile old_col_id new_col_id (selected_rows source_tile) 0
               dest_tile))"

fun MaterializeByTiles ::
  "'v heap \<Rightarrow> logical_tile \<Rightarrow> col_map \<Rightarrow> tile_to_cols \<Rightarrow> 'v tile \<Rightarrow> error + 'v tile" where
  "MaterializeByTiles h source_tile o2n [] dest_tile = Inr dest_tile"
| "MaterializeByTiles h source_tile o2n (kv # rest) dest_tile =
     (case materialize_columns h source_tile o2n (snd kv) dest_tile of
        Inl e \<Rightarrow> Inl e
      | Inr d \<Rightarrow> MaterializeByTiles h source_tile o2n rest d)"

definition BuildIdentityMapping :: "schema \<Rightarrow> col_map" where
  "BuildIdentityMapping s = map (\<lambda>col. (col, col)) [0 ..< GetColumnCount s]"

text \<open>
  \<^verbatim>\<open>GetPhysicalSchema\<close> returns a schema it has just built, so
  \<^verbatim>\<open>assert(source_tile_schema.get())\<close> holds. The result is the store with the new
  tile at its end, and the logical tile that wraps it.
\<close>

definition Physify ::
  "materialization_node option \<Rightarrow> 'v heap \<Rightarrow> logical_tile \<Rightarrow> error + ('v heap \<times> logical_tile)" where
  "Physify nd h source_tile =
     (let source_tile_schema = GetPhysicalSchema h source_tile;
          num_tuples = GetTupleCount source_tile;
          (output_schema, o2n) =
            (case nd of
               None \<Rightarrow> (source_tile_schema, BuildIdentityMapping source_tile_schema)
             | Some n \<Rightarrow>
                 (case GetSchema n of
                    Some s \<Rightarrow> (s, old_to_new_cols n)
                  | None \<Rightarrow> (source_tile_schema, BuildIdentityMapping source_tile_schema)));
          tile_to_cols = GenerateTileToColMap o2n source_tile [];
          dest_tile = GetTempTile output_schema num_tuples
      in case MaterializeByTiles h source_tile o2n tile_to_cols dest_tile of
           Inl e \<Rightarrow> Inl e
         | Inr d \<Rightarrow> Inr (h @ [d], WrapTiles (h @ [d]) [length h] True))"

text \<open>
  \<^verbatim>\<open>children_[0]\<close> on an executor without children is outside the vector; DInit
  asserts that there is one child, and the model treats the access like that assertion.
  On a false return the output of the executor is left as it was.
\<close>

definition DExecute :: "'v heap \<Rightarrow> executor \<Rightarrow> error + (bool \<times> 'v heap \<times> executor)" where
  "DExecute h e =
     (case children e of
        [] \<Rightarrow> Inl AssertionFailure
      | child # others \<Rightarrow>
          (case child_Execute child of
             (None, child') \<Rightarrow> Inr (False, h, e\<lparr>children := child' # others\<rparr>)
           | (Some source_tile, child') \<Rightarrow>
               (let e1 = e\<lparr>children := child' # others\<rparr> in
                if GetTupleCount source_tile = 0 then Inr (False, h, e1)
                else
                  (let physify_flag =
                         (case node e of None \<Rightarrow> True | Some n \<Rightarrow> GetPhysifyFlag n)
                   in if physify_flag then
                        (case Physify (node e) h source_tile of
                           Inl err \<Rightarrow> Inl err
                         | Inr (h', output_tile) \<Rightarrow>
                             Inr (True, h', e1\<lparr>exec_output := Some output_tile\<rparr>))
                      else Inr (True, h, e1\<lparr>exec_output := Some source_tile\<rparr>)))))"

subsection \<open>The sequence of writes\<close>

text \<open>
  The calls of \<^verbatim>\<open>dest_tile->SetValue(value, new_tuple_id++, new_col_id)\<close> that
  the loops make, in order, each as (value, row, column): for one column, and for a
  list of columns.
\<close>

fun column_writes ::
  "'v heap \<Rightarrow> logical_tile \<Rightarrow> oid_t \<Rightarrow> oid_t \<Rightarrow> oid_t list \<Rightarrow> oid_t \<Rightarrow>
     ('v option \<times> oid_t \<times> oid_t) list" where
  "column_writes h source_tile old_col_id new_col_id [] new_tuple_id = []"
| "column_writes h source_tile old_col_id new_col_id (old_tuple_id # rows) new_tuple_id =
     (GetValue h source_tile old_tuple_id old_col_id, new_tuple_id, new_col_id)
       # column_writes h source_tile old_col_id new_col_id rows (new_tuple_id + 1)"

definition apply_write :: "'v option \<times> oid_t \<times> oid_t \<Rightarrow> 'v tile \<Rightarrow> 'v tile" where
  "apply_write w t = SetValue (fst w) (fst (snd w)) (snd (snd w)) t"

definition write_row :: "'v option \<times> oid_t \<times> oid_t \<Rightarrow> oid_t" where
  "write_row w = fst (snd w)"

fun materialize_writes ::
  "'v heap \<Rightarrow> logical_tile \<Rightarrow> col_map \<Rightarrow> oid_t list \<Rightarrow> ('v option \<times> oid_t \<times> oid_t) list" where
  "materialize_writes h source_tile o2n [] = []"
| "materialize_writes h source_tile o2n (old_col_id # old_column_ids) =
     (case map_of o2n old_col_id of
        None \<Rightarrow> []
      | Some new_col_id \<Rightarrow>
          column_writes h source_tile old_col_id new_col_id (selected_rows source_tile) 0
            @ materialize_writes h source_tile o2n old_column_ids)"

section \<open>Tables\<close>

text \<open>
  \<^verbatim>\<open>table.h\<close> defines \<^verbatim>\<open>GetTileGroup\<close> and \<^verbatim>\<open>NumTileGroups\<close> and
  declares \<^verbatim>\<open>InsertTuple\<close>, \<^verbatim>\<open>TryInsertInIndexes\<close>,
  \<^verbatim>\<open>CheckNulls\<close> and \<^verbatim>\<open>AddDefaultTileGroup\<close>; the bodies of these four,
  the tile group, the tuple and the index are not among the sources and follow
  sections 3, 4.3 and 4.4 of the spec.
\<close>

text \<open>
  Modelled from the spec: \<^verbatim>\<open>storage::Tuple\<close> and \<^verbatim>\<open>Value\<close> are not among
  the sources. A tuple is "an ephemeral, schema-bound value vector"; a value is null or
  holds a payload of the external value layer.
\<close>

datatype 'v val = NullValue | Val 'v

type_synonym 'v tuple = "'v val list"

text \<open>
  Modelled from the spec: \<^verbatim>\<open>ItemPointer\<close> is not among the sources. It is "a
  stable tuple address = (tile-group identifier, slot offset)".
\<close>

record item_pointer =
  ip_block :: oid_t
  ip_offset :: oid_t

text \<open>
  Modelled from the spec: \<^verbatim>\<open>TileGroup\<close> is not among the sources. Each slot has
  the values copied into it, "an associated insert-transaction-id and a
  commit/visibility id (begin timestamp), initially uncommitted" (\<open>None\<close>), which only
  \<^verbatim>\<open>CommitInsertedTuple\<close> sets: a slot is "not yet visible" while it is
  \<open>None\<close>.
\<close>

record 'v tuple_slot =
  slot_tuple :: "'v tuple"
  insert_txn_id :: nat
  begin_commit_id :: "nat option"

text \<open>
  Modelled from the spec: a TileGroup "has fixed capacity" and "a shared slot-count
  cursor", here the number of slots in use.
\<close>

record 'v tile_group =
  tg_capacity :: nat
  tg_slots :: "'v tuple_slot list"

text \<open>
  Modelled from the spec: \<^verbatim>\<open>TileGroup::InsertTuple\<close> "reserves the next free slot
  (fails, returns an invalid slot sentinel, if the group is at capacity), copies the
  tuple's column values and stamps the slot's insert-transaction-id"; the sentinel is
  \<open>None\<close>.
\<close>

definition TileGroup_InsertTuple ::
  "nat \<Rightarrow> 'v tuple \<Rightarrow> 'v tile_group \<Rightarrow> oid_t option \<times> 'v tile_group" where
  "TileGroup_InsertTuple txn_id tuple tg =
     (if length (tg_slots tg) < tg_capacity tg
      then (Some (length (tg_slots tg)),
            tg\<lparr>tg_slots := tg_slots tg @
               [\<lparr>slot_tuple = tuple, insert_txn_id = txn_id, begin_commit_id = None\<rparr>]\<rparr>)
      else (None, tg))"

text \<open>
  Modelled from the spec: \<^verbatim>\<open>index::Index\<close> is not among the sources. An index
  "maps a key-tuple to one or more stable tuple locations; supports point queries,
  insert, delete"; its key is the projection of the tuple on the key columns, and a
  unique index refuses a key it already holds.
\<close>

record 'v index =
  unique_keys :: bool
  key_attrs :: "oid_t list"
  entries :: "('v tuple \<times> item_pointer) list"

definition index_key :: "'v index \<Rightarrow> 'v tuple \<Rightarrow> 'v tuple" where
  "index_key idx tuple =
     map (\<lambda>c. if c < length tuple then tuple ! c else NullValue) (key_attrs idx)"

definition index_Exists :: "'v index \<Rightarrow> 'v tuple \<Rightarrow> bool" where
  "index_Exists idx key = list_ex (\<lambda>e. fst e = key) (entries idx)"

definition index_InsertEntry :: "'v tuple \<Rightarrow> item_pointer \<Rightarrow> 'v index \<Rightarrow> 'v index" where
  "index_InsertEntry key location idx = idx\<lparr>entries := entries idx @ [(key, location)]\<rparr>"

definition index_DeleteLocation :: "item_pointer \<Rightarrow> 'v index \<Rightarrow> 'v index" where
  "index_DeleteLocation location idx =
     idx\<lparr>entries := filter (\<lambda>e. snd e \<noteq> location) (entries idx)\<rparr>"

text \<open>The data members of \<^verbatim>\<open>class Table\<close> in \<^verbatim>\<open>table.h\<close> that the
  operations use.\<close>

record 'v table =
  table_schema :: schema
  tile_groups :: "'v tile_group list"
  indexes :: "'v index list"
  tuples_per_tilegroup :: nat

text \<open>The constructor of \<^verbatim>\<open>table.h\<close>: no tile group, no index, and
  \<^verbatim>\<open>tuples_per_tilegroup = 1000\<close>.\<close>

definition Table_new :: "schema \<Rightarrow> 'v table" where
  "Table_new s = \<lparr>table_schema = s, tile_groups = [], indexes = [], tuples_per_tilegroup = 1000\<rparr>"

text \<open>\<^verbatim>\<open>GetTileGroup\<close> and \<^verbatim>\<open>NumTileGroups\<close>, as \<^verbatim>\<open>table.h\<close> defines
  them inline.\<close>

definition NumTileGroups :: "'v table \<Rightarrow> nat" where
  "NumTileGroups t = length (tile_groups t)"

definition GetTileGroup :: "'v table \<Rightarrow> nat \<Rightarrow> error + 'v tile_group" where
  "GetTileGroup t tile_group_id =
     (if tile_group_id < length (tile_groups t) then Inr (tile_groups t ! tile_group_id)
      else Inl AssertionFailure)"

text \<open>
  Modelled from the spec: the body of \<^verbatim>\<open>AddDefaultTileGroup\<close> is not among the
  sources. It appends "a fresh TileGroup (capacity = configured tuples-per-group)".
\<close>

definition AddDefaultTileGroup :: "'v table \<Rightarrow> 'v table" where
  "AddDefaultTileGroup t =
     t\<lparr>tile_groups := tile_groups t @ [\<lparr>tg_capacity = tuples_per_tilegroup t, tg_slots = []\<rparr>]\<rparr>"

text \<open>
  Modelled from the spec: the body of \<^verbatim>\<open>CheckNulls\<close> is not among the sources.
  The "tuple is rejected (constraint violation) if any non-nullable column holds a null
  value": the result is true when no such column does.
\<close>

definition CheckNulls :: "'v table \<Rightarrow> 'v tuple \<Rightarrow> bool" where
  "CheckNulls t tuple =
     list_all (\<lambda>cv. allow_null (fst cv) \<or> snd cv \<noteq> NullValue) (zip (table_schema t) tuple)"

text \<open>
  Modelled from the spec: the body of \<^verbatim>\<open>TryInsertInIndexes\<close> is not among the
  sources. It attempts "to insert the key projection into every index", in turn; when a
  unique index already holds the key, it removes "any index entries already inserted
  for this tuple" and the result is false.
\<close>

fun try_insert ::
  "'v tuple \<Rightarrow> item_pointer \<Rightarrow> 'v index list \<Rightarrow> 'v index list \<Rightarrow> bool \<times> 'v index list" where
  "try_insert tuple location inserted [] = (True, inserted)"
| "try_insert tuple location inserted (idx # rest) =
     (if unique_keys idx \<and> index_Exists idx (index_key idx tuple)
      then (False, map (index_DeleteLocation location) inserted @ idx # rest)
      else try_insert tuple location
             (inserted @ [index_InsertEntry (index_key idx tuple) location idx]) rest)"

definition TryInsertInIndexes ::
  "'v tuple \<Rightarrow> item_pointer \<Rightarrow> 'v index list \<Rightarrow> bool \<times> 'v index list" where
  "TryInsertInIndexes tuple location idxs = try_insert tuple location [] idxs"

text \<open>Modelled from the spec: "the current TileGroup", the last one, has a free slot.\<close>

definition has_free_slot :: "'v table \<Rightarrow> bool" where
  "has_free_slot t \<longleftrightarrow>
     tile_groups t \<noteq> [] \<and>
     length (tg_slots (last (tile_groups t))) < tg_capacity (last (tile_groups t))"

text \<open>
  Modelled from the spec: the body of \<^verbatim>\<open>Table::InsertTuple\<close> is not among the
  sources. The null check is "checked before slot allocation"; then steps 1 to 4 of
  section 4.4: a fresh group is appended when the current one has no free slot, the
  tuple goes into a slot of the last group, and its key into the indexes; when a unique
  index refuses, the slot "is left allocated". A fresh group that has no free slot
  either (a table configured with zero tuples per group) is the one case of "table full".
\<close>

definition InsertTuple ::
  "nat \<Rightarrow> 'v tuple \<Rightarrow> 'v table \<Rightarrow> (error + item_pointer) \<times> 'v table" where
  "InsertTuple txn_id tuple t =
     (if \<not> CheckNulls t tuple then (Inl NullViolation, t)
      else
        (let t1 = (if has_free_slot t then t else AddDefaultTileGroup t) in
         case TileGroup_InsertTuple txn_id tuple (last (tile_groups t1)) of
           (None, tg) \<Rightarrow> (Inl TableFull, t1)
         | (Some slot, tg) \<Rightarrow>
             (let location = \<lparr>ip_block = length (tile_groups t1) - 1, ip_offset = slot\<rparr>;
                  t2 = t1\<lparr>tile_groups := butlast (tile_groups t1) @ [tg]\<rparr>
              in case TryInsertInIndexes tuple location (indexes t2) of
                   (False, idxs) \<Rightarrow> (Inl UniqueKeyViolation, t2\<lparr>indexes := idxs\<rparr>)
                 | (True, idxs) \<Rightarrow> (Inr location, t2\<lparr>indexes := idxs\<rparr>))))"

text \<open>The location that the next insert gets: the next slot of the last group, or the
  first slot of a new group.\<close>

definition next_location :: "'v table \<Rightarrow> item_pointer" where
  "next_location t =
     (if has_free_slot t
      then \<lparr>ip_block = length (tile_groups t) - 1,
            ip_offset = length (tg_slots (last (tile_groups t)))\<rparr>
      else \<lparr>ip_block = length (tile_groups t), ip_offset = 0\<rparr>)"

text \<open>A location is allocated when its slot is in use; \<open>slot_at\<close> reads that slot.\<close>

definition allocated :: "'v table \<Rightarrow> item_pointer \<Rightarrow> bool" where
  "allocated t location \<longleftrightarrow>
     ip_block location < length (tile_groups t) \<and>
     ip_offset location < length (tg_slots (tile_groups t ! ip_block location))"

definition slot_at :: "'v table \<Rightarrow> item_pointer \<Rightarrow> 'v tuple_slot" where
  "slot_at t location = tg_slots (tile_groups t ! ip_block location) ! ip_offset location"

text \<open>Invariant I5 of the spec, the part used here: the ItemPointer of every index entry
  is a slot in use.\<close>

definition indexes_point_to_slots :: "'v table \<Rightarrow> bool" where
  "indexes_point_to_slots t \<longleftrightarrow>
     list_all (\<lambda>idx. list_all (\<lambda>e. allocated t (snd e)) (entries idx)) (indexes t)"

text \<open>Inserting a list of tuples one after the other.\<close>

fun InsertTuples ::
  "nat \<Rightarrow> 'v tuple list \<Rightarrow> 'v table \<Rightarrow> (error + item_pointer) list \<times> 'v table" where
  "InsertTuples txn_id [] t = ([], t)"
| "InsertTuples txn_id (tuple # tuples) t =
     (case InsertTuple txn_id tuple t of
        (r, t1) \<Rightarrow> (case InsertTuples txn_id tuples t1 of (rs, t2) \<Rightarrow> (r # rs, t2)))"

definition slot_counts :: "'v table \<Rightarrow> nat list" where
  "slot_counts t = map (\<lambda>g. length (tg_slots g)) (tile_groups t)"

text \<open>The slot counts of the groups after \<open>n\<close> slots were handed out in groups of
  \<open>c\<close>: full groups, then the rest.\<close>

definition group_sizes :: "nat \<Rightarrow> nat \<Rightarrow> nat list" where
  "group_sizes c n = replicate (n div c) c @ (if n mod c = 0 then [] else [n mod c])"

section \<open>Example inputs\<close>

text \<open>Concrete inputs on which the theorems below are run.\<close>

definition example_column :: "string \<Rightarrow> column_info" where
  "example_column name =
     \<lparr>col_type = VALUE_TYPE_INTEGER, col_length = 4, col_name = name, allow_null = False,
      is_inlined = True\<rparr>"

definition example_heap :: "nat heap" where
  "example_heap =
     [\<lparr>tile_schema = [example_column ''COL_A'', example_column ''COL_B''], num_tuple_slots = 3,
       cells = (\<lambda>rc. Some (100 + 10 * fst rc + snd rc))\<rparr>,
      \<lparr>tile_schema = [example_column ''COL_C''], num_tuple_slots = 3,
       cells = (\<lambda>rc. Some (200 + 10 * fst rc + snd rc))\<rparr>]"

definition example_source :: logical_tile where
  "example_source =
     \<lparr>base_tiles = [0, 1, 0], origin_columns = [0, 0, 1], valid_bits = [True, True, True],
      selected_rows = [2, 0], own_base_tile = False\<rparr>"

definition example_node :: materialization_node where
  "example_node =
     \<lparr>GetSchema = Some [example_column ''COL_C'', example_column ''COL_A''],
      old_to_new_cols = [(0, 1), (1, 0)], GetPhysifyFlag = True\<rparr>"

definition colliding_node :: materialization_node where
  "colliding_node =
     \<lparr>GetSchema = Some [example_column ''COL_A''],
      old_to_new_cols = [(0, 0), (1, 0)], GetPhysifyFlag = True\<rparr>"

definition example_executor :: executor where
  "example_executor =
     \<lparr>children = [[Some example_source, Some (example_source\<lparr>selected_rows := []\<rparr>), None]],
      node = None, exec_output = None\<rparr>"

definition example_group :: "nat \<Rightarrow> nat tile_group" where
  "example_group n =
     \<lparr>tg_capacity = 2,
      tg_slots = [\<lparr>slot_tuple = [Val n], insert_txn_id = 1, begin_commit_id = Some 1\<rparr>]\<rparr>"

definition example_table :: "nat table" where
  "example_table =
     \<lparr>table_schema = [example_column ''COL_A''],
      tile_groups = [example_group 10, example_group 20],
      indexes = [\<lparr>unique_keys = True, key_attrs = [0],
                  entries = [([Val 10], \<lparr>ip_block = 0, ip_offset = 0\<rparr>),
                             ([Val 20], \<lparr>ip_block = 1, ip_offset = 0\<rparr>)]\<rparr>],
      tuples_per_tilegroup = 2\<rparr>"

definition four_columns :: schema where
  "four_columns =
     [example_column ''COL_A'', example_column ''COL_B'', example_column ''COL_C'',
      example_column ''COL_D'']"

definition indexed_table :: "nat table" where
  "indexed_table =
     \<lparr>table_schema = [example_column ''COL_A'', example_column ''COL_B''],
      tile_groups =
        [\<lparr>tg_capacity = 2,
          tg_slots = [\<lparr>slot_tuple = [Val 10, Val 11], insert_txn_id = 1,
                       begin_commit_id = Some 1\<rparr>]\<rparr>],
      indexes =
        [\<lparr>unique_keys = False, key_attrs = [0, 1],
          entries = [([Val 10, Val 11], \<lparr>ip_block = 0, ip_offset = 0\<rparr>)]\<rparr>,
         \<lparr>unique_keys = True, key_attrs = [0],
          entries = [([Val 10], \<lparr>ip_block = 0, ip_offset = 0\<rparr>)]\<rparr>],
      tuples_per_tilegroup = 2\<rparr>"

section \<open>What the copy loops write\<close>

lemma copy_column_cells:
  "cells (copy_column h s oc nc rows i0 d) (i, c) =
     (if c = nc \<and> i0 \<le> i \<and> i < i0 + length rows then GetValue h s (rows ! (i - i0)) oc
      else cells d (i, c))"
proof (induction rows arbitrary: i0 d)
  case Nil
  then show ?case by auto
next
  case (Cons r rows)
  have "cells (copy_column h s oc nc (r # rows) i0 d) (i, c) =
          (if c = nc \<and> Suc i0 \<le> i \<and> i < Suc i0 + length rows
           then GetValue h s (rows ! (i - Suc i0)) oc
           else cells (SetValue (GetValue h s r oc) i0 nc d) (i, c))"
    by (simp add: Cons.IH)
  then show ?case
    by (auto simp: SetValue_def nth_Cons' not_less_eq_eq)
qed

lemma copy_column_shape:
  "tile_schema (copy_column h s oc nc rows i0 d) = tile_schema d \<and>
   num_tuple_slots (copy_column h s oc nc rows i0 d) = num_tuple_slots d"
  by (induction rows arbitrary: i0 d) (simp_all add: SetValue_def)

lemma materialize_columns_append:
  "materialize_columns h s m (xs @ ys) d =
     (case materialize_columns h s m xs d of
        Inl e \<Rightarrow> Inl e
      | Inr d' \<Rightarrow> materialize_columns h s m ys d')"
  by (induction xs arbitrary: d) (simp_all split: option.splits)

lemma MaterializeByTiles_concat:
  "MaterializeByTiles h s m bs d = materialize_columns h s m (concat (map snd bs)) d"
  by (induction bs arbitrary: d) (simp_all add: materialize_columns_append split: sum.splits)

lemma materialize_columns_cong:
  "map_of m = map_of m' \<Longrightarrow> materialize_columns h s m cs d = materialize_columns h s m' cs d"
  by (induction cs arbitrary: d) (simp_all split: option.splits)

lemma materialize_columns_total:
  "set cs \<subseteq> fst ` set m \<Longrightarrow> \<exists>d'. materialize_columns h s m cs d = Inr d'"
proof (induction cs arbitrary: d)
  case Nil
  then show ?case by simp
next
  case (Cons c cs)
  from Cons.prems have "c \<in> fst ` set m" by simp
  then obtain nc where "map_of m c = Some nc"
    by (metis domD dom_map_of_conv_image_fst)
  with Cons show ?case by simp
qed

lemma materialize_columns_shape:
  "materialize_columns h s m cs d = Inr d' \<Longrightarrow>
     tile_schema d' = tile_schema d \<and> num_tuple_slots d' = num_tuple_slots d"
proof (induction cs arbitrary: d)
  case Nil
  then show ?case by simp
next
  case (Cons c cs)
  then show ?case
    by (auto split: option.splits simp: copy_column_shape)
qed

lemma materialize_columns_frame:
  "materialize_columns h s m cs d = Inr d' \<Longrightarrow>
   (\<forall>oc \<in> set cs. map_of m oc \<noteq> Some nc) \<or> length (selected_rows s) \<le> i \<Longrightarrow>
   cells d' (i, nc) = cells d (i, nc)"
proof (induction cs arbitrary: d)
  case Nil
  then show ?case by simp
next
  case (Cons c cs)
  then show ?case
    by (auto split: option.splits simp: copy_column_cells)
qed

lemma materialize_columns_value:
  "materialize_columns h s m cs d = Inr d' \<Longrightarrow> inj_on (map_of m) (set cs) \<Longrightarrow>
   oc \<in> set cs \<Longrightarrow> map_of m oc = Some nc \<Longrightarrow> i < length (selected_rows s) \<Longrightarrow>
   cells d' (i, nc) = GetValue h s (selected_rows s ! i) oc"
proof (induction cs arbitrary: d)
  case Nil
  then show ?case by simp
next
  case (Cons c cs)
  from Cons.prems(1) obtain nc0 where c: "map_of m c = Some nc0"
    and rest: "materialize_columns h s m cs
                 (copy_column h s c nc0 (selected_rows s) 0 d) = Inr d'"
    by (auto split: option.splits)
  have inj: "inj_on (map_of m) (set cs)"
    using Cons.prems(2) by (simp add: inj_on_def)
  show ?case
  proof (cases "oc \<in> set cs")
    case True
    then show ?thesis
      using Cons.IH [OF rest inj True Cons.prems(4) Cons.prems(5)] by simp
  next
    case False
    with Cons.prems(3) have eq: "oc = c" by simp
    have "\<forall>x \<in> set cs. map_of m x \<noteq> Some nc"
    proof
      fix x assume x: "x \<in> set cs"
      show "map_of m x \<noteq> Some nc"
      proof
        assume "map_of m x = Some nc"
        then have "map_of m x = map_of m oc" using Cons.prems(4) by simp
        then have "x = oc"
          using Cons.prems(2) Cons.prems(3) x by (auto simp: inj_on_def)
        with False x show False by simp
      qed
    qed
    then have "cells d' (i, nc) = cells (copy_column h s c nc0 (selected_rows s) 0 d) (i, nc)"
      using materialize_columns_frame [OF rest] by blast
    also have "\<dots> = GetValue h s (selected_rows s ! i) oc"
      using c eq Cons.prems(4) Cons.prems(5) by (simp add: copy_column_cells)
    finally show ?thesis .
  qed
qed

section \<open>The buckets hold the mapped columns\<close>

lemma push_back_col_mset:
  "mset (concat (map snd (push_back_col p c acc))) = add_mset c (mset (concat (map snd acc)))"
  by (induction acc) auto

lemma GenerateTileToColMap_mset:
  "mset (concat (map snd (GenerateTileToColMap m s acc))) =
     mset (map fst m) + mset (concat (map snd acc))"
  by (induction m arbitrary: acc) (simp_all add: push_back_col_mset)

lemma GenerateTileToColMap_set:
  "set (concat (map snd (GenerateTileToColMap m s []))) = fst ` set m"
proof -
  have "set_mset (mset (concat (map snd (GenerateTileToColMap m s [])))) = set_mset (mset (map fst m))"
    by (simp add: GenerateTileToColMap_mset)
  then show ?thesis by simp
qed

section \<open>Physify\<close>

lemma Physify_identity:
  "nd = None \<or> (\<exists>n. nd = Some n \<and> GetSchema n = None) \<Longrightarrow>
   Physify nd h src =
     (case MaterializeByTiles h src (BuildIdentityMapping (GetPhysicalSchema h src))
             (GenerateTileToColMap (BuildIdentityMapping (GetPhysicalSchema h src)) src [])
             (GetTempTile (GetPhysicalSchema h src) (GetTupleCount src)) of
        Inl e \<Rightarrow> Inl e
      | Inr d \<Rightarrow> Inr (h @ [d], WrapTiles (h @ [d]) [length h] True))"
  by (auto simp: Physify_def Let_def)

lemma Physify_explicit:
  "GetSchema n = Some sch \<Longrightarrow>
   Physify (Some n) h src =
     (case MaterializeByTiles h src (old_to_new_cols n)
             (GenerateTileToColMap (old_to_new_cols n) src [])
             (GetTempTile sch (GetTupleCount src)) of
        Inl e \<Rightarrow> Inl e
      | Inr d \<Rightarrow> Inr (h @ [d], WrapTiles (h @ [d]) [length h] True))"
  by (simp add: Physify_def Let_def)

lemma MaterializeByTiles_generated_total:
  "\<exists>d. MaterializeByTiles h src m (GenerateTileToColMap m src []) dest = Inr d"
proof -
  have "set (concat (map snd (GenerateTileToColMap m src []))) \<subseteq> fst ` set m"
    by (simp only: GenerateTileToColMap_set subset_refl)
  from materialize_columns_total [OF this] show ?thesis
    by (simp only: MaterializeByTiles_concat)
qed

lemma Physify_total: "\<exists>h' out. Physify nd h src = Inr (h', out)"
proof -
  have "\<exists>sch m. Physify nd h src =
       (case MaterializeByTiles h src m (GenerateTileToColMap m src [])
               (GetTempTile sch (GetTupleCount src)) of
          Inl e \<Rightarrow> Inl e
        | Inr d \<Rightarrow> Inr (h @ [d], WrapTiles (h @ [d]) [length h] True))"
  proof (cases nd)
    case None
    then show ?thesis by (auto simp: Physify_identity)
  next
    case (Some n)
    then show ?thesis
      by (cases "GetSchema n") (auto simp: Physify_identity Physify_explicit)
  qed
  then obtain sch m where
    "Physify nd h src =
       (case MaterializeByTiles h src m (GenerateTileToColMap m src [])
               (GetTempTile sch (GetTupleCount src)) of
          Inl e \<Rightarrow> Inl e
        | Inr d \<Rightarrow> Inr (h @ [d], WrapTiles (h @ [d]) [length h] True))"
    by blast
  moreover obtain d where
    "MaterializeByTiles h src m (GenerateTileToColMap m src [])
       (GetTempTile sch (GetTupleCount src)) = Inr d"
    using MaterializeByTiles_generated_total by blast
  ultimately show ?thesis by simp
qed

lemma inj_on_map_of:
  assumes "distinct (map snd m)"
  shows "inj_on (map_of m) (fst ` set m)"
proof (rule inj_onI)
  fix a b
  assume a: "a \<in> fst ` set m" and b: "b \<in> fst ` set m" and eq: "map_of m a = map_of m b"
  from a obtain x where x: "map_of m a = Some x"
    by (metis domD dom_map_of_conv_image_fst)
  then have "(a, x) \<in> set m" by (rule map_of_SomeD)
  moreover from x eq have "(b, x) \<in> set m" by (simp add: map_of_SomeD)
  moreover from assms have "inj_on snd (set m)" by (simp add: distinct_map)
  ultimately show "a = b" by (fastforce simp: inj_on_def)
qed

lemma WrapTiles_single:
  assumes "p < length h"
  shows "base_tiles (WrapTiles h [p] own) = replicate (length (tile_schema (h ! p))) p"
    and "origin_columns (WrapTiles h [p] own) = [0 ..< length (tile_schema (h ! p))]"
    and "selected_rows (WrapTiles h [p] own) = [0 ..< num_tuple_slots (h ! p)]"
    and "own_base_tile (WrapTiles h [p] own) = own"
  by (simp_all add: WrapTiles_def GetColumnCount_def)

lemma GetValue_WrapTiles:
  "c < length (tile_schema d) \<Longrightarrow>
   GetValue (h @ [d]) (WrapTiles (h @ [d]) [length h] own) k c = cells d (k, c)"
  by (simp add: GetValue_def WrapTiles_def GetBaseTile_def GetOriginColumnId_def
      Tile_GetValue_def GetColumnCount_def)

section \<open>Identity materialization\<close>

lemma map_of_identity:
  "map_of (BuildIdentityMapping s) c = (if c < length s then Some c else None)"
  by (auto simp: BuildIdentityMapping_def GetColumnCount_def map_of_map_restrict restrict_map_def)

lemma identity_keys: "fst ` set (BuildIdentityMapping s) = {0 ..< length s}"
  by (force simp: BuildIdentityMapping_def GetColumnCount_def)

lemma length_GetPhysicalSchema: "length (GetPhysicalSchema h src) = NumCols src"
  by (simp add: GetPhysicalSchema_def)

text \<open>
  Claim C1. When the executor has no plan node, or a plan node without a schema,
  \<^verbatim>\<open>Physify\<close> never fails and returns a logical tile that owns one new tile:
  the tile stands at an address that no column of the source uses, its rows are
  0, 1, ..., n - 1 for the n rows the source yields, and row k, column c of the result
  holds what the source holds at its k-th selected row and column c, for every column
  of the source, valid or not, whatever the slot numbers of the source are.
\<close>

theorem identity_materialization:
  assumes wf: "wf_logical_tile h src"
    and nd: "nd = None \<or> (\<exists>n. nd = Some n \<and> GetSchema n = None)"
  shows "\<exists>d. Physify nd h src = Inr (h @ [d], WrapTiles (h @ [d]) [length h] True) \<and>
           own_base_tile (WrapTiles (h @ [d]) [length h] True) \<and>
           base_tiles (WrapTiles (h @ [d]) [length h] True) = replicate (NumCols src) (length h) \<and>
           length h \<notin> set (base_tiles src) \<and>
           selected_rows (WrapTiles (h @ [d]) [length h] True) = [0 ..< GetTupleCount src] \<and>
           (\<forall>k < GetTupleCount src. \<forall>c < NumCols src.
              GetValue (h @ [d]) (WrapTiles (h @ [d]) [length h] True) k c =
              GetValue h src (selected_rows src ! k) c)"
proof -
  let ?sch = "GetPhysicalSchema h src"
  let ?m = "BuildIdentityMapping ?sch"
  let ?cs = "concat (map snd (GenerateTileToColMap ?m src []))"
  let ?dest = "GetTempTile ?sch (GetTupleCount src) :: 'a tile"
  have keys: "set ?cs = {0 ..< NumCols src}"
    by (simp only: GenerateTileToColMap_set identity_keys length_GetPhysicalSchema)
  obtain d where d: "materialize_columns h src ?m ?cs ?dest = Inr d"
    using MaterializeByTiles_generated_total [of h src ?m ?dest]
    by (auto simp only: MaterializeByTiles_concat)
  have phys: "Physify nd h src = Inr (h @ [d], WrapTiles (h @ [d]) [length h] True)"
    using d by (simp add: Physify_identity [OF nd] MaterializeByTiles_concat)
  have shape: "tile_schema d = ?sch" "num_tuple_slots d = GetTupleCount src"
    using materialize_columns_shape [OF d] by (simp_all add: GetTempTile_def)
  have inj: "inj_on (map_of ?m) (set ?cs)"
    unfolding keys by (auto simp: inj_on_def map_of_identity length_GetPhysicalSchema)
  have vals: "cells d (k, c) = GetValue h src (selected_rows src ! k) c"
    if "k < GetTupleCount src" "c < NumCols src" for k c
  proof -
    have "c \<in> set ?cs" using that unfolding keys by simp
    moreover have "map_of ?m c = Some c"
      using that by (simp add: map_of_identity length_GetPhysicalSchema)
    moreover have "k < length (selected_rows src)"
      using that by (simp add: GetTupleCount_def)
    ultimately show ?thesis
      by (rule materialize_columns_value [OF d inj])
  qed
  have fresh: "length h \<notin> set (base_tiles src)"
    using wf by (auto simp: wf_logical_tile_def list_all_iff)
  show ?thesis
    using phys shape vals fresh
    by (auto simp: WrapTiles_single GetValue_WrapTiles length_GetPhysicalSchema)
qed

lemma example_facts:
  "length example_heap = 2" "NumCols example_source = 3" "GetTupleCount example_source = 2"
  "selected_rows example_source = [2, 0]"
  by (simp_all add: example_heap_def example_source_def NumCols_def GetTupleCount_def)

lemma example_wf: "wf_logical_tile example_heap example_source"
  by (simp add: wf_logical_tile_def example_heap_def example_source_def)

lemma example_values:
  "GetValue example_heap example_source 2 0 = Some 120"
  "GetValue example_heap example_source 0 0 = Some 100"
  "GetValue example_heap example_source 2 1 = Some 220"
  "GetValue example_heap example_source 0 1 = Some 200"
  "GetValue example_heap example_source 2 2 = Some 121"
  "GetValue example_heap example_source 0 2 = Some 101"
  "GetValue example_heap example_source 2 (Suc 0) = Some 220"
  "GetValue example_heap example_source 0 (Suc 0) = Some 200"
  by (simp_all add: GetValue_def GetBaseTile_def GetOriginColumnId_def Tile_GetValue_def
      example_heap_def example_source_def)

text \<open>
  On the example the source yields the slots 2 and 0, in this order: row 0 of the result
  is slot 2 and row 1 is slot 0.
\<close>

theorem identity_materialization_witness:
  "wf_logical_tile example_heap example_source \<and>
   (\<exists>d. Physify None example_heap example_source =
           Inr (example_heap @ [d], WrapTiles (example_heap @ [d]) [2] True) \<and>
         selected_rows (WrapTiles (example_heap @ [d]) [2] True) = [0, 1] \<and>
         GetValue (example_heap @ [d]) (WrapTiles (example_heap @ [d]) [2] True) 0 1 = Some 220 \<and>
         GetValue (example_heap @ [d]) (WrapTiles (example_heap @ [d]) [2] True) 1 2 = Some 101)"
proof -
  from identity_materialization [OF example_wf, of None]
  obtain d where
    p: "Physify None example_heap example_source =
          Inr (example_heap @ [d], WrapTiles (example_heap @ [d]) [2] True)"
    and r: "selected_rows (WrapTiles (example_heap @ [d]) [2] True) = [0 ..< 2]"
    and v: "\<forall>k < 2. \<forall>c < 3.
          GetValue (example_heap @ [d]) (WrapTiles (example_heap @ [d]) [2] True) k c =
          GetValue example_heap example_source ([2, 0] ! k) c"
    by (auto simp: example_facts)
  have "GetValue (example_heap @ [d]) (WrapTiles (example_heap @ [d]) [2] True) 0 1 = Some 220"
    using v by (simp add: example_values)
  moreover
  have "GetValue (example_heap @ [d]) (WrapTiles (example_heap @ [d]) [2] True) 1 2 = Some 101"
    using v by (simp add: example_values)
  moreover have "[0 ..< 2] = [0, Suc 0]" by (simp add: upt_rec)
  ultimately show ?thesis using p r example_wf by auto
qed

section \<open>Projection\<close>

text \<open>
  Claim C3, as amended. For a plan node with a schema and a mapping in which no two old
  columns share a new column, \<^verbatim>\<open>Physify\<close> returns a new tile of the schema of
  the node, with one slot per selected row, in which every mapped pair (old, new) has
  column new equal to column old of the source on every selected row, and in which
  nothing else is written: a column that is the target of no pair, and a row beyond the
  selected ones, stay empty. The mapping may reorder and drop columns; being keyed by
  the old column it sends a source column to one output column only.
\<close>

theorem projection_materialization:
  assumes sch: "GetSchema n = Some sch"
    and keys: "distinct (map fst (old_to_new_cols n))"
    and inj: "distinct (map snd (old_to_new_cols n))"
  shows "\<exists>d. Physify (Some n) h src = Inr (h @ [d], WrapTiles (h @ [d]) [length h] True) \<and>
           tile_schema d = sch \<and> num_tuple_slots d = GetTupleCount src \<and>
           (\<forall>kv \<in> set (old_to_new_cols n). \<forall>k < GetTupleCount src.
              Tile_GetValue d k (snd kv) = GetValue h src (selected_rows src ! k) (fst kv)) \<and>
           (\<forall>new k. new \<notin> snd ` set (old_to_new_cols n) \<longrightarrow> Tile_GetValue d k new = None) \<and>
           (\<forall>new k. GetTupleCount src \<le> k \<longrightarrow> Tile_GetValue d k new = None)"
proof -
  let ?m = "old_to_new_cols n"
  let ?cs = "concat (map snd (GenerateTileToColMap ?m src []))"
  let ?dest = "GetTempTile sch (GetTupleCount src) :: 'a tile"
  have cs: "set ?cs = fst ` set ?m"
    by (rule GenerateTileToColMap_set)
  obtain d where d: "materialize_columns h src ?m ?cs ?dest = Inr d"
    using MaterializeByTiles_generated_total [of h src ?m ?dest]
    by (auto simp only: MaterializeByTiles_concat)
  have phys: "Physify (Some n) h src = Inr (h @ [d], WrapTiles (h @ [d]) [length h] True)"
    using d by (simp add: Physify_explicit [OF sch] MaterializeByTiles_concat)
  have shape: "tile_schema d = sch" "num_tuple_slots d = GetTupleCount src"
    using materialize_columns_shape [OF d] by (simp_all add: GetTempTile_def)
  have inj': "inj_on (map_of ?m) (set ?cs)"
    unfolding cs using inj by (rule inj_on_map_of)
  have mapped: "Tile_GetValue d k (snd kv) = GetValue h src (selected_rows src ! k) (fst kv)"
    if "kv \<in> set ?m" "k < GetTupleCount src" for kv k
  proof -
    have "fst kv \<in> set ?cs" using that(1) unfolding cs by simp
    moreover have "map_of ?m (fst kv) = Some (snd kv)"
      using keys that(1) by (cases kv) simp
    moreover have "k < length (selected_rows src)"
      using that(2) by (simp add: GetTupleCount_def)
    ultimately have "cells d (k, snd kv) = GetValue h src (selected_rows src ! k) (fst kv)"
      by (rule materialize_columns_value [OF d inj'])
    then show ?thesis by (simp add: Tile_GetValue_def)
  qed
  have unmapped: "Tile_GetValue d k new = None" if "new \<notin> snd ` set ?m" for new k
  proof -
    have "\<forall>oc \<in> set ?cs. map_of ?m oc \<noteq> Some new"
    proof (intro ballI notI)
      fix oc assume "map_of ?m oc = Some new"
      then have "(oc, new) \<in> set ?m" by (rule map_of_SomeD)
      then have "new \<in> snd ` set ?m" by force
      with that show False by simp
    qed
    then have "cells d (k, new) = cells ?dest (k, new)"
      using materialize_columns_frame [OF d] by blast
    then show ?thesis by (simp add: Tile_GetValue_def GetTempTile_def)
  qed
  have beyond: "Tile_GetValue d k new = None" if "GetTupleCount src \<le> k" for new k
  proof -
    have "length (selected_rows src) \<le> k" using that by (simp add: GetTupleCount_def)
    then have "cells d (k, new) = cells ?dest (k, new)"
      using materialize_columns_frame [OF d] by blast
    then show ?thesis by (simp add: Tile_GetValue_def GetTempTile_def)
  qed
  show ?thesis
    using phys shape mapped unmapped beyond by blast
qed

text \<open>
  A mapping that swaps the first two columns of the example and drops the third.
\<close>

theorem projection_materialization_witness:
  "GetSchema example_node = Some [example_column ''COL_C'', example_column ''COL_A''] \<and>
   distinct (map fst (old_to_new_cols example_node)) \<and>
   distinct (map snd (old_to_new_cols example_node)) \<and>
   (\<exists>d. Physify (Some example_node) example_heap example_source =
           Inr (example_heap @ [d], WrapTiles (example_heap @ [d]) [2] True) \<and>
         Tile_GetValue d 0 1 = Some 120 \<and> Tile_GetValue d 1 0 = Some 200 \<and>
         Tile_GetValue d 0 2 = None)"
proof -
  have s: "GetSchema example_node = Some [example_column ''COL_C'', example_column ''COL_A'']"
    and k: "distinct (map fst (old_to_new_cols example_node))"
    and i: "distinct (map snd (old_to_new_cols example_node))"
    by (simp_all add: example_node_def)
  from projection_materialization [OF s k i, of example_heap example_source]
  obtain d where
    p: "Physify (Some example_node) example_heap example_source =
          Inr (example_heap @ [d], WrapTiles (example_heap @ [d]) [2] True)"
    and v: "\<forall>kv \<in> set (old_to_new_cols example_node). \<forall>k < 2.
          Tile_GetValue d k (snd kv) = GetValue example_heap example_source ([2, 0] ! k) (fst kv)"
    and u: "\<forall>new k. new \<notin> snd ` set (old_to_new_cols example_node) \<longrightarrow>
          Tile_GetValue d k new = None"
    by (auto simp: example_facts)
  have "Tile_GetValue d 0 1 = Some 120"
    using v by (simp add: example_node_def example_values)
  moreover have "Tile_GetValue d 1 0 = Some 200"
    using v by (simp add: example_node_def example_values)
  moreover have "Tile_GetValue d 0 2 = None"
    using u by (simp add: example_node_def)
  ultimately show ?thesis using p s k i by blast
qed

text \<open>
  Claim C3 as stated fails for a mapping that sends two old columns to one new column.
  With 0 to 0 and 1 to 0, column 0 of the result cannot equal both old columns: when
  the mapping is iterated as (0, 0), (1, 0) it does not hold old column 0, and when it
  is iterated as (1, 0), (0, 0) it does not hold old column 1.
\<close>

theorem projection_collision_counterexample:
  "(case Physify (Some colliding_node) example_heap example_source of
      Inl e \<Rightarrow> None
    | Inr r \<Rightarrow> GetValue (fst r) (snd r) 0 0) \<noteq>
     GetValue example_heap example_source (selected_rows example_source ! 0) 0 \<and>
   (case Physify (Some (colliding_node\<lparr>old_to_new_cols := [(1, 0), (0, 0)]\<rparr>))
           example_heap example_source of
      Inl e \<Rightarrow> None
    | Inr r \<Rightarrow> GetValue (fst r) (snd r) 0 0) \<noteq>
     GetValue example_heap example_source (selected_rows example_source ! 0) 1"
  by (simp add: Physify_def colliding_node_def example_heap_def example_source_def
      GetTupleCount_def GetBaseTile_def GetTempTile_def SetValue_def GetValue_def
      GetOriginColumnId_def Tile_GetValue_def WrapTiles_def GetColumnCount_def)

section \<open>The order of the buckets\<close>

lemma materialize_columns_determined:
  assumes d1: "materialize_columns h s m cs1 d = Inr d1"
    and d2: "materialize_columns h s m cs2 d = Inr d2"
    and same: "set cs1 = set cs2"
    and inj: "inj_on (map_of m) (set cs1)"
  shows "d1 = d2"
proof (rule tile.equality)
  show "tile_schema d1 = tile_schema d2"
    using materialize_columns_shape [OF d1] materialize_columns_shape [OF d2] by simp
  show "num_tuple_slots d1 = num_tuple_slots d2"
    using materialize_columns_shape [OF d1] materialize_columns_shape [OF d2] by simp
  show "cells d1 = cells d2"
  proof
    fix rc :: "nat \<times> nat"
    obtain i nc where rc: "rc = (i, nc)" by (cases rc)
    show "cells d1 rc = cells d2 rc"
    proof (cases "(\<exists>oc \<in> set cs1. map_of m oc = Some nc) \<and> i < length (selected_rows s)")
      case True
      then obtain oc where oc: "oc \<in> set cs1" "map_of m oc = Some nc"
        and i: "i < length (selected_rows s)" by blast
      have "cells d1 (i, nc) = GetValue h s (selected_rows s ! i) oc"
        by (rule materialize_columns_value [OF d1 inj oc i])
      moreover have "cells d2 (i, nc) = GetValue h s (selected_rows s ! i) oc"
        using materialize_columns_value [OF d2 _ _ oc(2) i] inj oc(1) same by simp
      ultimately show ?thesis by (simp add: rc)
    next
      case False
      then have c1: "(\<forall>oc \<in> set cs1. map_of m oc \<noteq> Some nc) \<or> length (selected_rows s) \<le> i"
        by auto
      then have c2: "(\<forall>oc \<in> set cs2. map_of m oc \<noteq> Some nc) \<or> length (selected_rows s) \<le> i"
        using same by simp
      have "cells d1 (i, nc) = cells d (i, nc)"
        by (rule materialize_columns_frame [OF d1 c1])
      moreover have "cells d2 (i, nc) = cells d (i, nc)"
        by (rule materialize_columns_frame [OF d2 c2])
      ultimately show ?thesis by (simp add: rc)
    qed
  qed
qed simp

text \<open>
  Claim C4, as amended. For a mapping in which no two old columns share a new column,
  the destination tile does not depend on any iteration order: the mapping may be
  listed in another order, and the mapped columns may be grouped into buckets and
  ordered inside the buckets in any way; the result is the tile that the buckets of
  \<^verbatim>\<open>GenerateTileToColMap\<close> give, and no assertion fails.
\<close>

theorem bucket_order_independence:
  assumes keys: "distinct (map fst o2n)"
    and inj: "distinct (map snd o2n)"
    and perm: "mset o2n' = mset o2n"
    and cols: "mset (concat (map snd buckets)) = mset (map fst o2n)"
  shows "\<exists>d. MaterializeByTiles h src o2n' buckets dest = Inr d \<and>
           MaterializeByTiles h src o2n (GenerateTileToColMap o2n src []) dest = Inr d"
proof -
  let ?cs1 = "concat (map snd buckets)"
  let ?cs2 = "concat (map snd (GenerateTileToColMap o2n src []))"
  have s1: "set ?cs1 = fst ` set o2n"
    using mset_eq_setD [OF cols] by simp
  have s2: "set ?cs2 = fst ` set o2n"
    by (rule GenerateTileToColMap_set)
  have "distinct (map fst o2n')"
    using keys perm by (metis distinct_map mset_eq_setD mset_map mset_eq_imp_distinct_iff)
  moreover have "set o2n' = set o2n" using perm by (rule mset_eq_setD)
  ultimately have "map_of o2n' = map_of o2n"
    using keys by (simp add: map_of_inject_set)
  then have same_map: "materialize_columns h src o2n' ?cs1 dest = materialize_columns h src o2n ?cs1 dest"
    by (rule materialize_columns_cong)
  obtain d1 where d1: "materialize_columns h src o2n ?cs1 dest = Inr d1"
    using materialize_columns_total [of ?cs1 o2n h src dest] s1 by auto
  obtain d2 where d2: "materialize_columns h src o2n ?cs2 dest = Inr d2"
    using materialize_columns_total [of ?cs2 o2n h src dest] s2 by auto
  have "inj_on (map_of o2n) (set ?cs1)"
    unfolding s1 using inj by (rule inj_on_map_of)
  then have "d1 = d2"
    using materialize_columns_determined [OF d1 d2] s1 s2 by simp
  then show ?thesis
    using d1 d2 same_map by (simp only: MaterializeByTiles_concat) simp
qed

text \<open>
  The example has columns from two physical tiles; the two runs visit the buckets, and
  the columns of the first bucket, in opposite orders.
\<close>

theorem bucket_order_independence_witness:
  "distinct (map fst [(0 :: nat, 1 :: nat), (1, 0), (2, 2)]) \<and>
   distinct (map snd [(0 :: nat, 1 :: nat), (1, 0), (2, 2)]) \<and>
   GenerateTileToColMap [(0, 1), (1, 0), (2, 2)] example_source [] = [(0, [0, 2]), (1, [1])] \<and>
   (\<exists>d. MaterializeByTiles example_heap example_source [(2, 2), (1, 0), (0, 1)]
           [(1, [1]), (0, [2, 0])] (GetTempTile [] 2) = Inr d \<and>
         MaterializeByTiles example_heap example_source [(0, 1), (1, 0), (2, 2)]
           [(0, [0, 2]), (1, [1])] (GetTempTile [] 2) = Inr d)"
proof -
  have g: "GenerateTileToColMap [(0, 1), (1, 0), (2, 2)] example_source [] = [(0, [0, 2]), (1, [1])]"
    by (simp add: example_source_def GetBaseTile_def)
  have k: "distinct (map fst [(0 :: nat, 1 :: nat), (1, 0), (2, 2)])"
    and i: "distinct (map snd [(0 :: nat, 1 :: nat), (1, 0), (2, 2)])"
    and p: "mset [(2, 2), (1, 0), (0 :: nat, 1 :: nat)] = mset [(0, 1), (1, 0), (2, 2)]"
    and c: "mset (concat (map snd [(1 :: nat, [1]), (0, [2, 0 :: nat])])) =
            mset (map fst [(0 :: nat, 1 :: nat), (1, 0), (2, 2)])"
    by simp_all
  from bucket_order_independence [OF k i p c, of example_heap example_source "GetTempTile [] 2"]
  show ?thesis using g k i by simp
qed

text \<open>
  Claim C4 as stated fails when two old columns from different tiles share a new
  column: the bucket that is processed last wins, so the two orders of the two buckets
  that \<^verbatim>\<open>GenerateTileToColMap\<close> builds give different tiles.
\<close>

theorem bucket_order_counterexample:
  "GenerateTileToColMap [(0, 0), (1, 0)] example_source [] = [(0, [0]), (1, [1])] \<and>
   MaterializeByTiles example_heap example_source [(0, 0), (1, 0)] [(0, [0]), (1, [1])]
     (GetTempTile [example_column ''COL_A''] 2) \<noteq>
   MaterializeByTiles example_heap example_source [(0, 0), (1, 0)] [(1, [1]), (0, [0])]
     (GetTempTile [example_column ''COL_A''] 2)"
proof
  show "GenerateTileToColMap [(0, 0), (1, 0)] example_source [] = [(0, [0]), (1, [1])]"
    by (simp add: example_source_def GetBaseTile_def)
  show "MaterializeByTiles example_heap example_source [(0, 0), (1, 0)] [(0, [0]), (1, [1])]
     (GetTempTile [example_column ''COL_A''] 2) \<noteq>
   MaterializeByTiles example_heap example_source [(0, 0), (1, 0)] [(1, [1]), (0, [0])]
     (GetTempTile [example_column ''COL_A''] 2)"
  proof
    assume "MaterializeByTiles example_heap example_source [(0, 0), (1, 0)] [(0, [0]), (1, [1])]
       (GetTempTile [example_column ''COL_A''] 2) =
     MaterializeByTiles example_heap example_source [(0, 0), (1, 0)] [(1, [1]), (0, [0])]
       (GetTempTile [example_column ''COL_A''] 2)"
    then have "map_sum id (\<lambda>d. cells d (0, 0))
         (MaterializeByTiles example_heap example_source [(0, 0), (1, 0)] [(0, [0]), (1, [1])]
            (GetTempTile [example_column ''COL_A''] 2)) =
       map_sum id (\<lambda>d. cells d (0, 0))
         (MaterializeByTiles example_heap example_source [(0, 0), (1, 0)] [(1, [1]), (0, [0])]
            (GetTempTile [example_column ''COL_A''] 2))"
      by simp
    then show False
      by (simp add: example_heap_def example_source_def GetBaseTile_def GetTempTile_def
          SetValue_def GetValue_def GetOriginColumnId_def Tile_GetValue_def)
  qed
qed

section \<open>The rows of the destination\<close>

lemma column_writes_rows:
  "map write_row (column_writes h s oc nc rows i) = [i ..< i + length rows]"
  by (induction rows arbitrary: i) (simp_all add: write_row_def upt_rec)

lemma copy_column_fold:
  "copy_column h s oc nc rows i d = fold apply_write (column_writes h s oc nc rows i) d"
  by (induction rows arbitrary: i d) (simp_all add: apply_write_def)

lemma materialize_columns_fold:
  "materialize_columns h s m cs d = Inr d' \<Longrightarrow>
   d' = fold apply_write (materialize_writes h s m cs) d"
  by (induction cs arbitrary: d) (auto split: option.splits simp: copy_column_fold)

lemma materialize_writes_rows:
  "w \<in> set (materialize_writes h s m cs) \<Longrightarrow> write_row w < length (selected_rows s)"
proof (induction cs)
  case Nil
  then show ?case by simp
next
  case (Cons c cs)
  show ?case
  proof (cases "map_of m c")
    case None
    with Cons.prems show ?thesis by simp
  next
    case (Some nc)
    with Cons.prems consider
      "w \<in> set (column_writes h s c nc (selected_rows s) 0)" |
      "w \<in> set (materialize_writes h s m cs)" by auto
    then show ?thesis
    proof cases
      case 1
      then have "write_row w \<in> set (map write_row (column_writes h s c nc (selected_rows s) 0))"
        by simp
      then show ?thesis by (simp only: column_writes_rows) simp
    next
      case 2
      then show ?thesis by (rule Cons.IH)
    qed
  qed
qed

text \<open>
  Claim C9. When the buckets hold mapped columns only and the destination is the tile
  that \<^verbatim>\<open>Physify\<close> allocates, with as many slots as the source has selected
  rows (the rows that iteration yields), \<^verbatim>\<open>MaterializeByTiles\<close> returns the tile
  that its sequence of \<^verbatim>\<open>SetValue\<close> calls builds, every call writes a row below
  the number of slots of the destination, and the rows written for each copied column
  are exactly 0, 1, ..., n - 1 in this order.
\<close>

theorem destination_rows_dense:
  assumes cols: "set (concat (map snd buckets)) \<subseteq> fst ` set m"
    and dest: "dest = GetTempTile sch (GetTupleCount src)"
  shows "\<exists>d. MaterializeByTiles h src m buckets dest = Inr d \<and>
           d = fold apply_write (materialize_writes h src m (concat (map snd buckets))) dest \<and>
           list_all (\<lambda>w. write_row w < num_tuple_slots dest)
             (materialize_writes h src m (concat (map snd buckets))) \<and>
           (\<forall>oc \<in> set (concat (map snd buckets)). \<forall>nc. map_of m oc = Some nc \<longrightarrow>
              map write_row (column_writes h src oc nc (selected_rows src) 0) =
                [0 ..< GetTupleCount src])"
proof -
  obtain d where d: "materialize_columns h src m (concat (map snd buckets)) dest = Inr d"
    using materialize_columns_total [OF cols] by blast
  have "num_tuple_slots dest = length (selected_rows src)"
    by (simp add: dest GetTempTile_def GetTupleCount_def)
  then have "list_all (\<lambda>w. write_row w < num_tuple_slots dest)
      (materialize_writes h src m (concat (map snd buckets)))"
    by (simp add: list_all_iff materialize_writes_rows)
  moreover have "map write_row (column_writes h src oc nc (selected_rows src) 0) =
      [0 ..< GetTupleCount src]" for oc nc
    by (simp add: column_writes_rows GetTupleCount_def)
  ultimately show ?thesis
    using d materialize_columns_fold [OF d] by (simp add: MaterializeByTiles_concat)
qed

text \<open>
  The example source yields two rows, so each column writes the rows 0 and 1.
\<close>

theorem destination_rows_dense_witness:
  "set (concat (map snd [(0, [0, 2]), (1, [1 :: nat])])) \<subseteq> fst ` set [(0, 1 :: nat), (1, 0), (2, 2)] \<and>
   (\<exists>d. MaterializeByTiles example_heap example_source [(0, 1), (1, 0), (2, 2)]
           [(0, [0, 2]), (1, [1])] (GetTempTile [] (GetTupleCount example_source)) = Inr d \<and>
         map write_row (column_writes example_heap example_source 2 2
           (selected_rows example_source) 0) = [0, 1])"
proof -
  have c: "set (concat (map snd [(0 :: nat, [0, 2]), (1, [1 :: nat])])) \<subseteq>
           fst ` set [(0, 1 :: nat), (1, 0), (2, 2)]"
    by simp
  from destination_rows_dense [OF c refl, of example_heap example_source "[]"]
  obtain d where
    "MaterializeByTiles example_heap example_source [(0, 1), (1, 0), (2, 2)]
       [(0, [0, 2]), (1, [1])] (GetTempTile [] (GetTupleCount example_source)) = Inr d"
    and "\<forall>oc \<in> set (concat (map snd [(0 :: nat, [0, 2]), (1, [1 :: nat])])). \<forall>nc.
       map_of [(0, 1 :: nat), (1, 0), (2, 2)] oc = Some nc \<longrightarrow>
       map write_row (column_writes example_heap example_source oc nc
         (selected_rows example_source) 0) = [0 ..< GetTupleCount example_source]"
    by blast
  moreover have "[0 ..< GetTupleCount example_source] = [0, 1]"
    by (simp add: example_facts upt_rec)
  ultimately show ?thesis using c by auto
qed

section \<open>One pull of the executor\<close>

text \<open>
  Claim C2. For an executor with a child, \<^verbatim>\<open>DExecute\<close> returns false exactly
  when the pull of the child returns false or the pulled tile has no selected row, and
  then its output and the store of tiles are as before; in every other case it returns
  true and holds an output tile. It never ends in a failed assertion.
\<close>

theorem DExecute_outcomes:
  assumes ch: "children e = child # others"
  shows "if fst (child_Execute child) = None \<or>
            (\<exists>t. fst (child_Execute child) = Some t \<and> GetTupleCount t = 0)
         then \<exists>e'. DExecute h e = Inr (False, h, e') \<and> exec_output e' = exec_output e
         else \<exists>h' e' t. DExecute h e = Inr (True, h', e') \<and> exec_output e' = Some t"
proof -
  obtain pull child' where ce: "child_Execute child = (pull, child')"
    by (cases "child_Execute child")
  show ?thesis
  proof (cases pull)
    case None
    then show ?thesis using ch ce by (simp add: DExecute_def)
  next
    case (Some t)
    show ?thesis
    proof (cases "GetTupleCount t = 0")
      case True
      then show ?thesis using ch ce Some by (simp add: DExecute_def)
    next
      case False
      obtain h' out where p: "Physify (node e) h t = Inr (h', out)"
        using Physify_total by blast
      show ?thesis
        using ch ce Some False p
        by (auto simp: DExecute_def Let_def split: option.splits)
    qed
  qed
qed

text \<open>
  Three pulls: a tile with two rows, a tile without rows, and the end of the stream.
\<close>

theorem DExecute_outcomes_witness:
  "children example_executor =
     [Some example_source, Some (example_source\<lparr>selected_rows := []\<rparr>), None] # [] \<and>
   (\<exists>h' e' t. DExecute example_heap example_executor = Inr (True, h', e') \<and>
      exec_output e' = Some t) \<and>
   (\<exists>e'. DExecute example_heap
            (example_executor\<lparr>children := [[Some (example_source\<lparr>selected_rows := []\<rparr>), None]]\<rparr>) =
          Inr (False, example_heap, e') \<and> exec_output e' = None) \<and>
   (\<exists>e'. DExecute example_heap (example_executor\<lparr>children := [[None]]\<rparr>) =
          Inr (False, example_heap, e') \<and> exec_output e' = None)"
proof -
  have c: "children example_executor =
      [Some example_source, Some (example_source\<lparr>selected_rows := []\<rparr>), None] # []"
    by (simp add: example_executor_def)
  have c2: "children (example_executor\<lparr>children := [[Some (example_source\<lparr>selected_rows := []\<rparr>), None]]\<rparr>) =
      [Some (example_source\<lparr>selected_rows := []\<rparr>), None] # []"
    by simp
  have c3: "children (example_executor\<lparr>children := [[None]]\<rparr>) = [None] # []"
    by simp
  have o: "exec_output example_executor = None"
    by (simp add: example_executor_def)
  show ?thesis
    using DExecute_outcomes [OF c, of example_heap] DExecute_outcomes [OF c2, of example_heap]
      DExecute_outcomes [OF c3, of example_heap] c o
    by (simp add: example_facts GetTupleCount_def)
qed

section \<open>Initialisation of the executor\<close>

text \<open>
  Claim C8, as amended. \<^verbatim>\<open>DInit\<close> returns true when the executor has exactly
  one child. With any other number of children the assertion
  \<^verbatim>\<open>children_.size() == 1\<close> fails; \<^verbatim>\<open>DInit\<close> never returns false.
\<close>

theorem DInit_asserts_one_child:
  "(length (children e) = 1 \<longrightarrow> DInit e = Inr True) \<and>
   (length (children e) \<noteq> 1 \<longrightarrow> DInit e = Inl AssertionFailure) \<and>
   DInit e \<noteq> Inr False"
  by (simp add: DInit_def)

text \<open>
  An executor with one child, and the same executor without children.
\<close>

theorem DInit_asserts_one_child_witness:
  "DInit example_executor = Inr True \<and>
   DInit (example_executor\<lparr>children := []\<rparr>) = Inl AssertionFailure"
  using DInit_asserts_one_child [of example_executor]
    DInit_asserts_one_child [of "example_executor\<lparr>children := []\<rparr>"]
  by (simp add: example_executor_def)

text \<open>
  Claim C8 as stated fails: an executor without children does not get false from
  \<^verbatim>\<open>DInit\<close>.
\<close>

theorem DInit_no_child_counterexample:
  "length (children \<lparr>children = [], node = None, exec_output = None\<rparr>) \<noteq> 1 \<and>
   DInit \<lparr>children = [], node = None, exec_output = None\<rparr> \<noteq> Inr False"
  by (simp add: DInit_def)

section \<open>Tile groups by position\<close>

text \<open>
  Claim C10. Below \<^verbatim>\<open>NumTileGroups()\<close>, \<^verbatim>\<open>GetTileGroup\<close> returns the
  tile group at that position of the list of groups. At any other id the assertion
  fails: no tile group and no error value is returned.
\<close>

theorem GetTileGroup_precondition:
  "(tile_group_id < NumTileGroups t \<longrightarrow>
      GetTileGroup t tile_group_id = Inr (tile_groups t ! tile_group_id)) \<and>
   (\<not> tile_group_id < NumTileGroups t \<longrightarrow> GetTileGroup t tile_group_id = Inl AssertionFailure)"
  by (simp add: GetTileGroup_def NumTileGroups_def)

text \<open>
  A table with two groups: position 1 is the second group, position 2 is out of range.
\<close>

theorem GetTileGroup_precondition_witness:
  "NumTileGroups example_table = 2 \<and>
   GetTileGroup example_table 1 = Inr (example_group 20) \<and>
   GetTileGroup example_table 2 = Inl AssertionFailure"
  using GetTileGroup_precondition [of 1 example_table]
    GetTileGroup_precondition [of 2 example_table]
  by (simp add: NumTileGroups_def example_table_def)

section \<open>Filling tile groups\<close>

lemma group_sizes_Suc:
  assumes "0 < c"
  shows "(if group_sizes c n \<noteq> [] \<and> last (group_sizes c n) < c
          then butlast (group_sizes c n) @ [Suc (last (group_sizes c n))]
          else group_sizes c n @ [1]) = group_sizes c (Suc n)"
proof (cases "n mod c = 0")
  case True
  have "last (replicate (n div c) c) = c" if "n div c \<noteq> 0"
    using that by (cases "n div c") simp_all
  then show ?thesis
    using True assms
    by (auto simp: group_sizes_def mod_Suc div_Suc replicate_append_same)
next
  case False
  then show ?thesis
    using assms
    by (auto simp: group_sizes_def mod_Suc div_Suc replicate_append_same)
qed

lemma InsertTuple_allocates:
  assumes nn: "CheckNulls t tuple" and cap: "0 < tuples_per_tilegroup t"
  shows "\<exists>idxs ok.
     TryInsertInIndexes tuple (next_location t)  (indexes t) = (ok, idxs) \<and>
     InsertTuple txn tuple t =
       (if ok then Inr (next_location t) else Inl UniqueKeyViolation,
        t\<lparr>tile_groups :=
             (if has_free_slot t
              then butlast (tile_groups t) @
                   [(last (tile_groups t))\<lparr>tg_slots := tg_slots (last (tile_groups t)) @
                      [\<lparr>slot_tuple = tuple, insert_txn_id = txn, begin_commit_id = None\<rparr>]\<rparr>]
              else tile_groups t @
                   [\<lparr>tg_capacity = tuples_per_tilegroup t,
                     tg_slots = [\<lparr>slot_tuple = tuple, insert_txn_id = txn, begin_commit_id = None\<rparr>]\<rparr>]),
           indexes := idxs\<rparr>)"
proof (cases "has_free_slot t")
  case True
  then show ?thesis
    using nn
    by (auto simp: InsertTuple_def Let_def TileGroup_InsertTuple_def has_free_slot_def
        next_location_def split: prod.splits bool.splits)
next
  case False
  then show ?thesis
    using nn cap
    by (auto simp: InsertTuple_def Let_def TileGroup_InsertTuple_def AddDefaultTileGroup_def
        next_location_def split: prod.splits bool.splits)
qed

lemma CheckNulls_schema: "table_schema t' = table_schema t \<Longrightarrow> CheckNulls t' tuple = CheckNulls t tuple"
  by (simp add: CheckNulls_def)

lemma InsertTuple_step:
  assumes per: "tuples_per_tilegroup t = c" and pos: "0 < c"
    and caps: "list_all (\<lambda>g. tg_capacity g = c) (tile_groups t)"
    and counts: "slot_counts t = group_sizes c n"
    and nn: "CheckNulls t tuple"
  shows "slot_counts (snd (InsertTuple txn tuple t)) = group_sizes c (Suc n) \<and>
         tuples_per_tilegroup (snd (InsertTuple txn tuple t)) = c \<and>
         list_all (\<lambda>g. tg_capacity g = c) (tile_groups (snd (InsertTuple txn tuple t))) \<and>
         table_schema (snd (InsertTuple txn tuple t)) = table_schema t \<and>
         fst (InsertTuple txn tuple t) \<noteq> Inl TableFull \<and>
         fst (InsertTuple txn tuple t) \<noteq> Inl NullViolation"
proof -
  from InsertTuple_allocates [OF nn, of txn] per pos
  obtain idxs ok where
    ins: "InsertTuple txn tuple t =
       (if ok then Inr (next_location t) else Inl UniqueKeyViolation,
        t\<lparr>tile_groups :=
             (if has_free_slot t
              then butlast (tile_groups t) @
                   [(last (tile_groups t))\<lparr>tg_slots := tg_slots (last (tile_groups t)) @
                      [\<lparr>slot_tuple = tuple, insert_txn_id = txn, begin_commit_id = None\<rparr>]\<rparr>]
              else tile_groups t @
                   [\<lparr>tg_capacity = tuples_per_tilegroup t,
                     tg_slots = [\<lparr>slot_tuple = tuple, insert_txn_id = txn, begin_commit_id = None\<rparr>]\<rparr>]),
           indexes := idxs\<rparr>)"
    by auto
  have free: "has_free_slot t \<longleftrightarrow> slot_counts t \<noteq> [] \<and> last (slot_counts t) < c"
  proof (cases "tile_groups t = []")
    case True
    then show ?thesis by (simp add: has_free_slot_def slot_counts_def)
  next
    case False
    then have "tg_capacity (last (tile_groups t)) = c"
      using caps by (simp add: list_all_iff)
    with False show ?thesis
      by (simp add: has_free_slot_def slot_counts_def last_map)
  qed
  have step: "slot_counts (snd (InsertTuple txn tuple t)) =
      (if slot_counts t \<noteq> [] \<and> last (slot_counts t) < c
       then butlast (slot_counts t) @ [Suc (last (slot_counts t))]
       else slot_counts t @ [1])"
  proof (cases "has_free_slot t")
    case True
    then have "tile_groups t \<noteq> []" by (simp add: has_free_slot_def)
    then show ?thesis
      using True free by (simp add: ins slot_counts_def last_map map_butlast)
  next
    case False
    then have "\<not> (slot_counts t \<noteq> [] \<and> last (slot_counts t) < c)"
      using free by simp
    then show ?thesis
      using False by (auto simp: ins slot_counts_def)
  qed
  have "slot_counts (snd (InsertTuple txn tuple t)) = group_sizes c (Suc n)"
    unfolding step counts by (rule group_sizes_Suc [OF pos])
  moreover have "list_all (\<lambda>g. tg_capacity g = c) (tile_groups (snd (InsertTuple txn tuple t)))"
  proof (cases "has_free_slot t")
    case True
    then have ne: "tile_groups t \<noteq> []" by (simp add: has_free_slot_def)
    then have "tg_capacity (last (tile_groups t)) = c"
      using caps by (simp add: list_all_iff)
    moreover have "list_all (\<lambda>g. tg_capacity g = c) (butlast (tile_groups t))"
      using caps by (auto simp: list_all_iff dest: in_set_butlastD)
    ultimately show ?thesis using True by (simp add: ins)
  next
    case False
    then show ?thesis using caps per by (simp add: ins)
  qed
  ultimately show ?thesis
    using per by (simp add: ins)
qed

lemma InsertTuples_counts:
  assumes "tuples_per_tilegroup t = c" and "0 < c"
    and "list_all (\<lambda>g. tg_capacity g = c) (tile_groups t)"
    and "slot_counts t = group_sizes c n"
    and "\<forall>tuple \<in> set tuples. CheckNulls t tuple"
  shows "slot_counts (snd (InsertTuples txn tuples t)) = group_sizes c (n + length tuples) \<and>
         list_all (\<lambda>r. r \<noteq> Inl TableFull \<and> r \<noteq> Inl NullViolation)
           (fst (InsertTuples txn tuples t))"
  using assms
proof (induction tuples arbitrary: t n)
  case Nil
  then show ?case by simp
next
  case (Cons tuple tuples)
  let ?t1 = "snd (InsertTuple txn tuple t)"
  have nn: "CheckNulls t tuple" using Cons.prems(5) by simp
  note step = InsertTuple_step [OF Cons.prems(1) Cons.prems(2) Cons.prems(3) Cons.prems(4) nn, of txn]
  have "table_schema ?t1 = table_schema t" using step by simp
  then have "CheckNulls ?t1 x = CheckNulls t x" for x
    by (rule CheckNulls_schema)
  then have rest: "\<forall>x \<in> set tuples. CheckNulls ?t1 x"
    using Cons.prems(5) by simp
  have ih: "slot_counts (snd (InsertTuples txn tuples ?t1)) =
              group_sizes c (Suc n + length tuples) \<and>
            list_all (\<lambda>r. r \<noteq> Inl TableFull \<and> r \<noteq> Inl NullViolation)
              (fst (InsertTuples txn tuples ?t1))"
  proof (rule Cons.IH [of ?t1 "Suc n"])
    show "tuples_per_tilegroup ?t1 = c" using step by simp
    show "0 < c" by (rule Cons.prems(2))
    show "list_all (\<lambda>g. tg_capacity g = c) (tile_groups ?t1)" using step by simp
    show "slot_counts ?t1 = group_sizes c (Suc n)" using step by simp
    show "\<forall>x \<in> set tuples. CheckNulls ?t1 x" by (rule rest)
  qed
  have unfold: "InsertTuples txn (tuple # tuples) t =
      (fst (InsertTuple txn tuple t) # fst (InsertTuples txn tuples ?t1),
       snd (InsertTuples txn tuples ?t1))"
    by (simp add: split_beta)
  show ?case
    unfolding unfold using ih step by simp
qed

text \<open>
  Claim C5. Into a table without tile groups and with 1000 tuples per tile group, 2500
  tuples that pass the null check are inserted one after the other: the table then has
  three tile groups, with 1000, 1000 and 500 slots in use, and no insert reported a full
  table: when the last group is full, the insert appends a group and goes on.
\<close>

theorem insert_2500_tuples:
  assumes empty: "tile_groups t = []"
    and per: "tuples_per_tilegroup t = 1000"
    and len: "length tuples = 2500"
    and nn: "\<forall>tuple \<in> set tuples. CheckNulls t tuple"
  shows "NumTileGroups (snd (InsertTuples txn tuples t)) = 3 \<and>
         slot_counts (snd (InsertTuples txn tuples t)) = [1000, 1000, 500] \<and>
         list_all (\<lambda>r. r \<noteq> Inl TableFull) (fst (InsertTuples txn tuples t))"
proof -
  have "slot_counts t = group_sizes 1000 0"
    using empty by (simp add: slot_counts_def group_sizes_def)
  moreover have "list_all (\<lambda>g. tg_capacity g = 1000) (tile_groups t)"
    using empty by simp
  ultimately have r: "slot_counts (snd (InsertTuples txn tuples t)) =
        group_sizes 1000 (0 + length tuples) \<and>
      list_all (\<lambda>r. r \<noteq> Inl TableFull \<and> r \<noteq> Inl NullViolation)
        (fst (InsertTuples txn tuples t))"
    using per nn by (intro InsertTuples_counts) simp_all
  have g: "group_sizes 1000 2500 = [1000, 1000, 500]"
    by (simp add: group_sizes_def numeral_2_eq_2)
  have c: "slot_counts (snd (InsertTuples txn tuples t)) = [1000, 1000, 500]"
    using r len g by simp
  then have "length (slot_counts (snd (InsertTuples txn tuples t))) = 3" by simp
  then have "NumTileGroups (snd (InsertTuples txn tuples t)) = 3"
    by (simp add: slot_counts_def NumTileGroups_def)
  moreover have "list_all (\<lambda>r. r \<noteq> Inl TableFull) (fst (InsertTuples txn tuples t))"
    using r by (simp add: list_all_iff)
  ultimately show ?thesis using c by simp
qed

text \<open>
  The table that the constructor of \<^verbatim>\<open>table.h\<close> builds, with four columns, and
  2500 copies of one tuple.
\<close>

theorem insert_2500_tuples_witness:
  "tile_groups (Table_new four_columns :: nat table) = [] \<and>
   tuples_per_tilegroup (Table_new four_columns :: nat table) = 1000 \<and>
   length (replicate 2500 [Val 1, Val 2, Val 3, Val (4 :: nat)]) = 2500 \<and>
   CheckNulls (Table_new four_columns :: nat table) [Val 1, Val 2, Val 3, Val 4] \<and>
   NumTileGroups
     (snd (InsertTuples 7 (replicate 2500 [Val 1, Val 2, Val 3, Val 4])
        (Table_new four_columns :: nat table))) = 3 \<and>
   slot_counts
     (snd (InsertTuples 7 (replicate 2500 [Val 1, Val 2, Val 3, Val 4])
        (Table_new four_columns :: nat table))) = [1000, 1000, 500]"
proof -
  let ?t = "Table_new four_columns :: nat table"
  let ?tuple = "[Val 1, Val 2, Val 3, Val (4 :: nat)]"
  have e: "tile_groups ?t = []" and p: "tuples_per_tilegroup ?t = 1000"
    by (simp_all add: Table_new_def)
  have l: "length (replicate 2500 ?tuple) = 2500" by (rule length_replicate)
  have c: "CheckNulls ?t ?tuple"
    by (simp add: CheckNulls_def Table_new_def four_columns_def)
  have n: "\<forall>tuple \<in> set (replicate 2500 ?tuple). CheckNulls ?t tuple"
    using c by (simp only: set_replicate_conv_if) simp
  from insert_2500_tuples [OF e p l n, of 7] e p l c show ?thesis by blast
qed

section \<open>Rollback of index entries\<close>

lemma index_delete_insert:
  "list_all (\<lambda>e. snd e \<noteq> location) (entries idx) \<Longrightarrow>
   index_DeleteLocation location (index_InsertEntry key location idx) = idx"
  by (simp add: index_DeleteLocation_def index_InsertEntry_def list_all_iff filter_id_conv)

lemma try_insert_fails:
  "list_ex (\<lambda>idx. unique_keys idx \<and> index_Exists idx (index_key idx tuple)) todo \<Longrightarrow>
   fst (try_insert tuple location inserted todo) = False"
  by (induction todo arbitrary: inserted) auto

lemma try_insert_restores:
  "fst (try_insert tuple location inserted todo) = False \<Longrightarrow>
   list_all (\<lambda>idx. list_all (\<lambda>e. snd e \<noteq> location) (entries idx)) todo \<Longrightarrow>
   snd (try_insert tuple location inserted todo) =
     map (index_DeleteLocation location) inserted @ todo"
proof (induction todo arbitrary: inserted)
  case Nil
  then show ?case by simp
next
  case (Cons idx rest)
  show ?case
  proof (cases "unique_keys idx \<and> index_Exists idx (index_key idx tuple)")
    case True
    then show ?thesis by simp
  next
    case False
    let ?ins = "inserted @ [index_InsertEntry (index_key idx tuple) location idx]"
    have step: "try_insert tuple location inserted (idx # rest) =
        try_insert tuple location ?ins rest"
      using False by auto
    have "fst (try_insert tuple location ?ins rest) = False"
      using Cons.prems(1) by (simp only: step)
    moreover have "list_all (\<lambda>idx. list_all (\<lambda>e. snd e \<noteq> location) (entries idx)) rest"
      using Cons.prems(2) by simp
    ultimately have "snd (try_insert tuple location ?ins rest) =
        map (index_DeleteLocation location) ?ins @ rest"
      by (rule Cons.IH)
    moreover have "index_DeleteLocation location
        (index_InsertEntry (index_key idx tuple) location idx) = idx"
      using Cons.prems(2) by (simp add: index_delete_insert)
    ultimately show ?thesis by (simp add: step)
  qed
qed

lemma next_location_fresh: "\<not> allocated t (next_location t)"
  by (auto simp: allocated_def next_location_def has_free_slot_def last_conv_nth)

text \<open>
  Claim C6. A tuple passes the null check, the table allocates groups of at least one
  slot, every index entry points to a slot in use, and some unique index already holds
  the key of the tuple. Then \<^verbatim>\<open>InsertTuple\<close> returns the unique-key violation,
  which is not "table full"; the indexes are what they were, so no index holds an entry
  for the location of the tuple, whatever was inserted before the unique index refused;
  and that location, not in use before, is now a slot that holds the tuple and is still
  uncommitted, so it is not visible, and its ItemPointer is not returned.
\<close>

theorem unique_violation_rolls_back:
  assumes nn: "CheckNulls t tuple"
    and cap: "0 < tuples_per_tilegroup t"
    and wf: "indexes_point_to_slots t"
    and dup: "list_ex (\<lambda>idx. unique_keys idx \<and> index_Exists idx (index_key idx tuple))
                (indexes t)"
  shows "fst (InsertTuple txn tuple t) = Inl UniqueKeyViolation \<and>
         fst (InsertTuple txn tuple t) \<noteq> Inl TableFull \<and>
         indexes (snd (InsertTuple txn tuple t)) = indexes t \<and>
         list_all (\<lambda>idx. list_all (\<lambda>e. snd e \<noteq> next_location t) (entries idx))
           (indexes (snd (InsertTuple txn tuple t))) \<and>
         \<not> allocated t (next_location t) \<and>
         allocated (snd (InsertTuple txn tuple t)) (next_location t) \<and>
         slot_at (snd (InsertTuple txn tuple t)) (next_location t) =
           \<lparr>slot_tuple = tuple, insert_txn_id = txn, begin_commit_id = None\<rparr>"
proof -
  let ?loc = "next_location t"
  from InsertTuple_allocates [OF nn cap, of txn]
  obtain idxs ok where
    tr: "TryInsertInIndexes tuple ?loc (indexes t) = (ok, idxs)"
    and ins: "InsertTuple txn tuple t =
       (if ok then Inr ?loc else Inl UniqueKeyViolation,
        t\<lparr>tile_groups :=
             (if has_free_slot t
              then butlast (tile_groups t) @
                   [(last (tile_groups t))\<lparr>tg_slots := tg_slots (last (tile_groups t)) @
                      [\<lparr>slot_tuple = tuple, insert_txn_id = txn, begin_commit_id = None\<rparr>]\<rparr>]
              else tile_groups t @
                   [\<lparr>tg_capacity = tuples_per_tilegroup t,
                     tg_slots = [\<lparr>slot_tuple = tuple, insert_txn_id = txn, begin_commit_id = None\<rparr>]\<rparr>]),
           indexes := idxs\<rparr>)"
    by blast
  have fresh: "list_all (\<lambda>idx. list_all (\<lambda>e. snd e \<noteq> ?loc) (entries idx)) (indexes t)"
    using wf next_location_fresh [of t]
    by (force simp: indexes_point_to_slots_def list_all_iff)
  have ok: "ok = False"
    using try_insert_fails [OF dup, of ?loc "[]"] tr by (simp add: TryInsertInIndexes_def)
  have idxs: "idxs = indexes t"
    using try_insert_restores [of tuple ?loc "[]" "indexes t"] fresh tr ok
    by (simp add: TryInsertInIndexes_def)
  have alloc: "allocated (snd (InsertTuple txn tuple t)) ?loc \<and>
      slot_at (snd (InsertTuple txn tuple t)) ?loc =
        \<lparr>slot_tuple = tuple, insert_txn_id = txn, begin_commit_id = None\<rparr>"
  proof (cases "has_free_slot t")
    case True
    then have "tile_groups t \<noteq> []" by (simp add: has_free_slot_def)
    then have "length (butlast (tile_groups t)) = length (tile_groups t) - 1" by simp
    then show ?thesis
      using True
      by (simp add: ins allocated_def slot_at_def next_location_def nth_append)
  next
    case False
    then show ?thesis
      by (simp add: ins allocated_def slot_at_def next_location_def)
  qed
  show ?thesis
    using ok idxs fresh alloc next_location_fresh [of t] by (simp add: ins)
qed

text \<open>
  The tuple first enters the non-unique index on both columns, then the unique index on
  the first column refuses it.
\<close>

theorem unique_violation_rolls_back_witness:
  "CheckNulls indexed_table [Val 10, Val 12] \<and>
   0 < tuples_per_tilegroup indexed_table \<and>
   indexes_point_to_slots indexed_table \<and>
   list_ex (\<lambda>idx. unique_keys idx \<and> index_Exists idx (index_key idx [Val 10, Val 12]))
     (indexes indexed_table) \<and>
   next_location indexed_table = \<lparr>ip_block = 0, ip_offset = 1\<rparr> \<and>
   fst (InsertTuple 5 [Val 10, Val 12] indexed_table) = Inl UniqueKeyViolation \<and>
   indexes (snd (InsertTuple 5 [Val 10, Val 12] indexed_table)) = indexes indexed_table \<and>
   begin_commit_id (slot_at (snd (InsertTuple 5 [Val 10, Val 12] indexed_table))
     \<lparr>ip_block = 0, ip_offset = 1\<rparr>) = None"
proof -
  have n: "CheckNulls indexed_table [Val 10, Val 12]"
    by (simp add: CheckNulls_def indexed_table_def example_column_def)
  have c: "0 < tuples_per_tilegroup indexed_table"
    by (simp add: indexed_table_def)
  have w: "indexes_point_to_slots indexed_table"
    by (simp add: indexes_point_to_slots_def allocated_def indexed_table_def)
  have d: "list_ex (\<lambda>idx. unique_keys idx \<and> index_Exists idx (index_key idx [Val 10, Val 12]))
     (indexes indexed_table)"
    by (simp add: indexed_table_def index_Exists_def index_key_def)
  have l: "next_location indexed_table = \<lparr>ip_block = 0, ip_offset = 1\<rparr>"
    by (simp add: next_location_def has_free_slot_def indexed_table_def)
  from unique_violation_rolls_back [OF n c w d, of 5] n c w d l show ?thesis
    by simp
qed

section \<open>The null check\<close>

lemma CheckNulls_iff:
  assumes "length tuple = length (table_schema t)"
  shows "CheckNulls t tuple \<longleftrightarrow>
     \<not> (\<exists>i < length (table_schema t). \<not> allow_null (table_schema t ! i) \<and> tuple ! i = NullValue)"
  using assms by (auto simp: CheckNulls_def list_all_length)

text \<open>
  Claim C7, as amended. For a tuple with one value per column of the schema,
  \<^verbatim>\<open>InsertTuple\<close> returns the null violation exactly when a column that does not
  allow nulls holds the null value, and then the table is unchanged: no slot was
  allocated and no index was touched.
\<close>

theorem null_check_before_allocation:
  assumes len: "length tuple = length (table_schema t)"
  shows "(fst (InsertTuple txn tuple t) = Inl NullViolation \<longleftrightarrow>
            (\<exists>i < length (table_schema t).
               \<not> allow_null (table_schema t ! i) \<and> tuple ! i = NullValue)) \<and>
         (fst (InsertTuple txn tuple t) = Inl NullViolation \<longrightarrow>
            snd (InsertTuple txn tuple t) = t)"
proof (cases "CheckNulls t tuple")
  case True
  then have "fst (InsertTuple txn tuple t) \<noteq> Inl NullViolation"
    by (auto simp: InsertTuple_def Let_def split: prod.splits option.splits bool.splits)
  then show ?thesis
    using True CheckNulls_iff [OF len] by simp
next
  case False
  then have "InsertTuple txn tuple t = (Inl NullViolation, t)"
    by (simp add: InsertTuple_def)
  then show ?thesis
    using False CheckNulls_iff [OF len] by simp
qed

text \<open>
  A null in a column that does not allow nulls is refused and leaves the table as it
  was; a value in the same column is not refused by the null check.
\<close>

theorem null_check_before_allocation_witness:
  "length [NullValue :: nat val] = length (table_schema example_table) \<and>
   fst (InsertTuple 5 [NullValue] example_table) = Inl NullViolation \<and>
   snd (InsertTuple 5 [NullValue] example_table) = example_table \<and>
   fst (InsertTuple 5 [Val 30] example_table) \<noteq> Inl NullViolation"
proof -
  have l: "length [NullValue :: nat val] = length (table_schema example_table)"
    and l': "length [Val 30 :: nat val] = length (table_schema example_table)"
    by (simp_all add: example_table_def)
  have s: "table_schema example_table = [example_column ''COL_A'']"
    by (simp add: example_table_def)
  show ?thesis
    using null_check_before_allocation [OF l, of 5] null_check_before_allocation [OF l', of 5] l
    by (simp add: s example_column_def)
qed

text \<open>
  Claim C7 as stated fails in its "only if" part: a tuple without any null is rejected
  as a constraint violation when a unique index already holds its key.
\<close>

theorem unique_violation_without_null_counterexample:
  "fst (InsertTuple 5 [Val 10] example_table) = Inl UniqueKeyViolation \<and>
   NullValue \<notin> set [Val (10 :: nat)]"
  by (simp add: InsertTuple_def CheckNulls_def example_table_def example_group_def
      example_column_def has_free_slot_def TileGroup_InsertTuple_def TryInsertInIndexes_def
      index_Exists_def index_key_def)

end
